theory Spec2Isabelle
  imports Complex_Main
begin

section \<open>Messages crossing the worker boundary\<close>

text \<open>
  The service (\<^verbatim>\<open>GenericOnnxService\<close>) and the worker (\<^verbatim>\<open>onnx.worker.ts\<close>) exchange
  plain objects. The \<^verbatim>\<open>action\<close> string is modelled by a datatype with one constructor per
  action the two files test for and one for every other string.
\<close>

datatype action = Load_model | Cancel | Pause | Progress | Resume | Run | Setup_worker | Other_action

text \<open>
  What the worker posts and the service's \<^verbatim>\<open>handleWorkerResponse\<close> reads
  (\<^verbatim>\<open>message.data\<close>). A field the sender leaves out holds \<open>None\<close>, \<open>False\<close>, \<open>0\<close> or \<open>[]\<close>.
  The worker's progress message uses the key \<^verbatim>\<open>success\<close> for an array; it is the field
  \<open>m_successes\<close> here. \<open>'r\<close> is the data of one inference output.
\<close>

record 'r message =
  m_action :: "action option"
  m_rn :: "nat option"
  m_success :: bool
  m_error :: "string option"
  m_reason :: "string option"
  m_complete :: int
  m_results :: "'r option list"
  m_successes :: "bool option list"

definition blank :: "'r message" where
  "blank = \<lparr>m_action = None, m_rn = None, m_success = False, m_error = None, m_reason = None,
     m_complete = 0, m_results = [], m_successes = []\<rparr>"

text \<open>
  What the service posts and the worker's \<^verbatim>\<open>onmessage\<close> reads. \<open>'s\<close> is one sample
  (a \<^verbatim>\<open>Float32Array\<close>). The handler casts \<^verbatim>\<open>message.data\<close> to the shape it expects, so a
  property may be absent: the samples of a run message and the dimensions of a load
  message are options (the service's \<^verbatim>\<open>loadModel\<close> sends a path and no dimensions).
  \<open>W_noaction\<close> is a message without \<^verbatim>\<open>data.action\<close> or with an action the handler has no
  branch for.
\<close>

datatype 's wmsg =
    W_load_model nat string "nat list option"
  | W_cancel nat
  | W_pause nat
  | W_resume nat
  | W_run nat "'s list option"
  | W_setup_worker nat string
  | W_noaction

section \<open>The worker: \<^verbatim>\<open>src/onnx.worker.ts\<close>\<close>

text \<open>
  Two functions the worker calls are not part of this repository and are parameters of
  the model. \<^verbatim>\<open>validateCommissionProps\<close> of \<^verbatim>\<open>@epicurrents/core\<close> is given a message and the
  properties the handler asks for; the handler only tests whether its result is falsy.
  Here it yields whether it accepts the message and the messages it posts itself while
  deciding; the object it returns when it accepts is taken to carry the properties of
  the message it was given. \<open>new_Tensor\<close> says whether \<^verbatim>\<open>new ort.Tensor(sample, DIMENSIONS)\<close> of
  \<^verbatim>\<open>onnxruntime-web\<close> returns; otherwise it throws.
\<close>

record ('s, 'r) library =
  validateCommissionProps :: "'s wmsg \<Rightarrow> bool \<times> 'r message list"
  new_Tensor :: "'s \<Rightarrow> nat list \<Rightarrow> bool"

text \<open>
  One entry of \<^verbatim>\<open>RUN.results\<close> is an object \<^verbatim>\<open>{ success, value }\<close>. Objects live in a heap
  (a list, the address is the index) and \<^verbatim>\<open>RUN.results\<close> holds addresses, because
  \<^verbatim>\<open>new Array(n).fill(obj)\<close> stores the same reference in every position.
\<close>

record 'r sample_result =
  success :: "bool option"
  "value" :: "'r option"

type_synonym addr = nat

text \<open>
  \<^verbatim>\<open>run\<close> is an async function: it runs until an \<^verbatim>\<open>await\<close> and is continued by the event
  loop later. A suspended call is a task: who awaits its result, its parameter
  \<^verbatim>\<open>samples\<close> and, while the engine runs, its local \<^verbatim>\<open>i\<close>.
\<close>

datatype caller = By_onmessage nat | By_resume

datatype 's task =
    Await_create nat string "nat list option"
  | Await_inference caller "'s list" nat
  | Await_sleep caller "'s list"

text \<open>
  The module's state: the five fields of \<^verbatim>\<open>RUN\<close>, \<^verbatim>\<open>DIMENSIONS\<close>, \<^verbatim>\<open>ort.env.wasm.wasmPaths\<close>,
  the heap of result objects, the suspended calls, and three logs: the messages posted,
  the engine invocations (index and sample) and the number of promises rejected by an
  exception nobody catches.
\<close>

record ('s, 'r) worker =
  continue :: bool
  results :: "addr list"
  sampleIdx :: nat
  samples :: "'s list"
  session :: "nat option"
  DIMENSIONS :: "nat list"
  wasmPaths :: string
  objects :: "'r sample_result list"
  tasks :: "'s task list"
  posted :: "'r message list"
  inferences :: "(nat \<times> 's) list"
  uncaught :: nat

definition worker_init :: "('s, 'r) worker" where
  "worker_init = \<lparr>continue = False, results = [], sampleIdx = 0, samples = [], session = None,
     DIMENSIONS = [], wasmPaths = [], objects = [], tasks = [], posted = [], inferences = [],
     uncaught = 0\<rparr>"

definition post :: "'r message \<Rightarrow> ('s, 'r) worker \<Rightarrow> ('s, 'r) worker" where
  "post m w = w\<lparr>posted := posted w @ [m]\<rparr>"

definition reply :: "action \<Rightarrow> nat \<Rightarrow> bool \<Rightarrow> string option \<Rightarrow> 'r message" where
  "reply a r ok why = blank\<lparr>m_action := Some a, m_rn := Some r, m_success := ok, m_reason := why\<rparr>"

text \<open>\<^verbatim>\<open>resetRun\<close>, lines 206-211.\<close>

definition resetRun :: "('s, 'r) worker \<Rightarrow> ('s, 'r) worker" where
  "resetRun w = w\<lparr>continue := False, results := [], sampleIdx := 0, samples := []\<rparr>"

text \<open>\<^verbatim>\<open>cancelRun\<close>, lines 163-170.\<close>

definition cancelRun :: "('s, 'r) worker \<Rightarrow> bool \<times> ('s, 'r) worker" where
  "cancelRun w =
     (if session w = None \<or> \<not> continue w then (False, w)
      else (True, (resetRun w)\<lparr>results := []\<rparr>))"

text \<open>\<^verbatim>\<open>pause\<close>, lines 195-201.\<close>

definition pause :: "('s, 'r) worker \<Rightarrow> bool \<times> ('s, 'r) worker" where
  "pause w =
     (if session w = None \<or> \<not> continue w then (False, w)
      else (True, w\<lparr>continue := False\<rparr>))"

text \<open>
  The end of \<^verbatim>\<open>run\<close>, lines 266-271: \<^verbatim>\<open>RUN.results.splice(0)\<close> empties the array and returns
  its former entries, then \<^verbatim>\<open>resetRun\<close>.
\<close>

definition finish :: "('s, 'r) worker \<Rightarrow> addr list \<times> ('s, 'r) worker" where
  "finish w = (results w, resetRun (w\<lparr>results := []\<rparr>))"

text \<open>
  How far a call of \<^verbatim>\<open>run\<close> gets before it yields: it returns a value (\<open>None\<close> stands for
  \<^verbatim>\<open>null\<close>, which the caller at line 125 tests for), it invokes the engine on sample \<open>i\<close>
  and awaits it, or it throws, which rejects its promise.
\<close>

datatype status = Returned "addr list option" | Invoked nat | Threw

text \<open>
  The head of the \<^verbatim>\<open>for\<close> loop, lines 239-247, and the code after the loop. The bound is
  the length of the parameter \<^verbatim>\<open>samples\<close>, not of \<^verbatim>\<open>RUN.samples\<close>. The tensor of line 247 is
  built outside the \<^verbatim>\<open>try\<close> of line 248: when \<^verbatim>\<open>new ort.Tensor\<close> throws, the call ends there.
\<close>

definition loop_head ::
  "('s, 'r) library \<Rightarrow> 's list \<Rightarrow> ('s, 'r) worker \<Rightarrow> status \<times> ('s, 'r) worker" where
  "loop_head lib smp w =
     (if sampleIdx w < length smp then
        (if \<not> continue w then (Returned (Some (results w)), w)
         else if new_Tensor lib (smp ! sampleIdx w) (DIMENSIONS w) then (Invoked (sampleIdx w), w)
         else (Threw, w))
      else (case finish w of (rs, w') \<Rightarrow> (Returned (Some rs), w')))"

text \<open>
  The entry of \<^verbatim>\<open>run\<close>, lines 233-238. A fresh run allocates one object
  \<^verbatim>\<open>{ success: null, value: null }\<close> and fills the new array with its address. The argument
  is \<open>None\<close> when \<^verbatim>\<open>data.samples\<close> is undefined: with a session, \<^verbatim>\<open>samples.length\<close> then throws
  a \<^verbatim>\<open>TypeError\<close> at line 236 or 239, before anything is assigned; without a session the
  parameter is not read.
\<close>

definition run_entry ::
  "('s, 'r) library \<Rightarrow> 's list option \<Rightarrow> ('s, 'r) worker \<Rightarrow> status \<times> ('s, 'r) worker" where
  "run_entry lib arg w =
     (if session w \<noteq> None then
        (case arg of
           None \<Rightarrow> (Threw, w)
         | Some smp \<Rightarrow>
             loop_head lib smp
               (if sampleIdx w = 0 then
                  w\<lparr>objects := objects w @ [\<lparr>success = None, value = None\<rparr>],
                    results := replicate (length smp) (length (objects w)),
                    samples := smp\<rparr>
                else w))
      else (case finish w of (rs, w') \<Rightarrow> (Returned (Some rs), w')))"

text \<open>
  What the caller does with the value \<^verbatim>\<open>run\<close> returns: the message handler posts the
  response of lines 125-139 (\<^verbatim>\<open>pred?.value ? pred.value[OUTPUT].data : null\<close> reads each
  entry through its reference at that moment); \<^verbatim>\<open>resume\<close> drops the promise. The handler's
  code after \<^verbatim>\<open>await run(...)\<close> is taken to run as soon as \<^verbatim>\<open>run\<close> returns, before any other
  event.
\<close>

fun deliver :: "caller \<Rightarrow> addr list option \<Rightarrow> ('s, 'r) worker \<Rightarrow> ('s, 'r) worker" where
  "deliver (By_onmessage r) None w =
     post (reply Run r False (Some ''Session has not been prepared yet.'')) w"
| "deliver (By_onmessage r) (Some rs) w =
     post ((reply Run r True None)\<lparr>m_results := map (\<lambda>a. value (objects w ! a)) rs\<rparr>) w"
| "deliver By_resume ret w = w"

text \<open>
  A call of \<^verbatim>\<open>run\<close> up to its first yield, and the same for a call continued at the loop
  head. Invoking the engine is logged and leaves a task; an exception leaves nothing but
  a rejected promise: the handler that awaits it ends without a response.
\<close>

definition settle_run :: "caller \<Rightarrow> 's list \<Rightarrow> status \<times> ('s, 'r) worker \<Rightarrow> ('s, 'r) worker" where
  "settle_run c smp p =
     (case p of
        (Returned ret, w) \<Rightarrow> deliver c ret w
      | (Invoked i, w) \<Rightarrow>
          w\<lparr>tasks := tasks w @ [Await_inference c smp i],
            inferences := inferences w @ [(i, smp ! i)]\<rparr>
      | (Threw, w) \<Rightarrow> w\<lparr>uncaught := uncaught w + 1\<rparr>)"

definition run ::
  "('s, 'r) library \<Rightarrow> caller \<Rightarrow> 's list option \<Rightarrow> ('s, 'r) worker \<Rightarrow> ('s, 'r) worker" where
  "run lib c arg w =
     settle_run c (case arg of None \<Rightarrow> [] | Some smp \<Rightarrow> smp) (run_entry lib arg w)"

text \<open>\<^verbatim>\<open>resume\<close>, lines 217-224: the promise of \<^verbatim>\<open>run([])\<close> is not awaited.\<close>

definition resume :: "('s, 'r) library \<Rightarrow> ('s, 'r) worker \<Rightarrow> bool \<times> ('s, 'r) worker" where
  "resume lib w =
     (if session w = None \<or> continue w then (False, w)
      else (True, run lib By_resume (Some []) (w\<lparr>continue := True\<rparr>)))"

text \<open>
  The body of the loop after the engine has answered, lines 248-263. \<open>out\<close> is the
  engine's output, \<open>None\<close> when \<^verbatim>\<open>RUN.session.run\<close> threw. \<^verbatim>\<open>RUN.results[i]\<close> is read at
  that moment: when the array has no entry \<open>i\<close> (it was replaced or emptied while the call
  was suspended) the assignment throws a \<^verbatim>\<open>TypeError\<close>, the \<^verbatim>\<open>catch\<close> block throws it
  again at line 254, and the call ends with a rejected promise nobody handles.
  Otherwise the object behind entry \<open>i\<close> is written (\<open>overwrite\<close>: lines 250-251 on
  success, line 254 on failure), the progress message is posted (it has no \<^verbatim>\<open>rn\<close>) and
  the call sleeps.
\<close>

definition overwrite :: "'r sample_result \<Rightarrow> 'r option \<Rightarrow> 'r sample_result" where
  "overwrite obj out =
     (case out of
        Some v \<Rightarrow> obj\<lparr>value := Some v, success := Some True\<rparr>
      | None \<Rightarrow> obj\<lparr>success := Some False\<rparr>)"

definition write_result :: "nat \<Rightarrow> 'r option \<Rightarrow> ('s, 'r) worker \<Rightarrow> ('s, 'r) worker" where
  "write_result i out w =
     (let a = results w ! i in w\<lparr>objects := (objects w)[a := overwrite (objects w ! a) out]\<rparr>)"

definition progress_message :: "nat \<Rightarrow> ('s, 'r) worker \<Rightarrow> 'r message" where
  "progress_message i w =
     blank\<lparr>m_action := Some Progress, m_complete := int i + 1,
       m_successes := map (\<lambda>a. success (objects w ! a)) (results w)\<rparr>"

definition after_inference ::
  "caller \<Rightarrow> 's list \<Rightarrow> nat \<Rightarrow> 'r option \<Rightarrow> ('s, 'r) worker \<Rightarrow> ('s, 'r) worker" where
  "after_inference c smp i out w =
     (if i < length (results w) then
        (let w1 = write_result i out w;
             w2 = post (progress_message i w1) w1
         in w2\<lparr>tasks := tasks w2 @ [Await_sleep c smp]\<rparr>)
      else w\<lparr>uncaught := uncaught w + 1\<rparr>)"

text \<open>After \<^verbatim>\<open>sleep(10)\<close>: the increment \<^verbatim>\<open>RUN.sampleIdx++\<close> of the loop, then its head.\<close>

definition after_sleep ::
  "('s, 'r) library \<Rightarrow> caller \<Rightarrow> 's list \<Rightarrow> ('s, 'r) worker \<Rightarrow> ('s, 'r) worker" where
  "after_sleep lib c smp w =
     settle_run c smp (loop_head lib smp (w\<lparr>sampleIdx := sampleIdx w + 1\<rparr>))"

text \<open>
  \<^verbatim>\<open>loadModel\<close>, lines 178-189, after \<^verbatim>\<open>ort.InferenceSession.create\<close> has answered with a
  session handle or thrown (\<open>None\<close>), followed by the response of lines 53-65. Spreading
  absent dimensions throws inside the \<^verbatim>\<open>try\<close>, after the session has been stored.
\<close>

definition after_create ::
  "nat \<Rightarrow> nat list option \<Rightarrow> nat option \<Rightarrow> ('s, 'r) worker \<Rightarrow> ('s, 'r) worker" where
  "after_create r dims created w =
     (case created of
        None \<Rightarrow> post (reply Load_model r False None) w
      | Some h \<Rightarrow>
          (case dims of
             Some d \<Rightarrow> post (reply Load_model r True None) (w\<lparr>session := Some h, DIMENSIONS := d\<rparr>)
           | None \<Rightarrow> post (reply Load_model r False None) (w\<lparr>session := Some h\<rparr>)))"

text \<open>
  \<^verbatim>\<open>onmessage\<close>, lines 34-158, up to its first \<^verbatim>\<open>await\<close>. In the branches for load-model,
  run and setup-worker the handler first calls \<^verbatim>\<open>validateCommissionProps\<close> (\<open>validated\<close>:
  whatever that function posts is posted) and returns at once when the result is falsy
  (lines 50-52, 121-123, 147-149).
\<close>

definition answer :: "action \<Rightarrow> nat \<Rightarrow> string \<Rightarrow> bool \<times> ('s, 'r) worker \<Rightarrow> ('s, 'r) worker" where
  "answer a r why p =
     (case p of (ok, w) \<Rightarrow> post (reply a r ok (if ok then None else Some why)) w)"

definition validated ::
  "('s, 'r) library \<Rightarrow> 's wmsg \<Rightarrow> ('s, 'r) worker \<Rightarrow> bool \<times> ('s, 'r) worker" where
  "validated lib m w =
     (case validateCommissionProps lib m of (ok, ms) \<Rightarrow> (ok, w\<lparr>posted := posted w @ ms\<rparr>))"

fun onmessage :: "('s, 'r) library \<Rightarrow> 's wmsg \<Rightarrow> ('s, 'r) worker \<Rightarrow> ('s, 'r) worker" where
  "onmessage lib W_noaction w = w"
| "onmessage lib (W_load_model r path dims) w =
     (case validated lib (W_load_model r path dims) w of
        (ok, w') \<Rightarrow> if ok then w'\<lparr>tasks := tasks w' @ [Await_create r path dims]\<rparr> else w')"
| "onmessage lib (W_cancel r) w =
     answer Cancel r ''There was no running session to pause.'' (cancelRun w)"
| "onmessage lib (W_pause r) w =
     answer Pause r ''There was no running session to pause.'' (pause w)"
| "onmessage lib (W_resume r) w =
     answer Resume r ''There was no paused session to resume.'' (resume lib w)"
| "onmessage lib (W_run r arg) w =
     (case validated lib (W_run r arg) w of
        (ok, w') \<Rightarrow> if ok then run lib (By_onmessage r) arg w' else w')"
| "onmessage lib (W_setup_worker r path) w =
     (case validated lib (W_setup_worker r path) w of
        (ok, w') \<Rightarrow>
          if ok then post (reply Setup_worker r True None) (w'\<lparr>wasmPaths := path\<rparr>) else w')"

text \<open>
  The event loop. An event delivers a message or continues the suspended call at
  position \<open>k\<close> of \<open>tasks\<close> with the answer it waited for; an event that does not match the
  task at \<open>k\<close> is not enabled and changes nothing.
\<close>

datatype ('s, 'r) wevent =
    Recv "'s wmsg"
  | Created nat "nat option"
  | Inferred nat "'r option"
  | Slept nat

definition drop_task :: "nat \<Rightarrow> ('s, 'r) worker \<Rightarrow> ('s, 'r) worker" where
  "drop_task k w = w\<lparr>tasks := take k (tasks w) @ drop (Suc k) (tasks w)\<rparr>"

fun continue_task ::
  "('s, 'r) library \<Rightarrow> ('s, 'r) wevent \<Rightarrow> 's task \<Rightarrow> nat \<Rightarrow> ('s, 'r) worker
     \<Rightarrow> ('s, 'r) worker" where
  "continue_task lib (Created k' created) (Await_create r path dims) k w =
     after_create r dims created (drop_task k w)"
| "continue_task lib (Inferred k' out) (Await_inference c smp i) k w =
     after_inference c smp i out (drop_task k w)"
| "continue_task lib (Slept k') (Await_sleep c smp) k w = after_sleep lib c smp (drop_task k w)"
| "continue_task lib e t k w = w"

fun task_of :: "('s, 'r) wevent \<Rightarrow> nat" where
  "task_of (Recv m) = 0"
| "task_of (Created k c) = k"
| "task_of (Inferred k out) = k"
| "task_of (Slept k) = k"

definition wstep ::
  "('s, 'r) library \<Rightarrow> ('s, 'r) wevent \<Rightarrow> ('s, 'r) worker \<Rightarrow> ('s, 'r) worker" where
  "wstep lib e w =
     (case e of
        Recv m \<Rightarrow> onmessage lib m w
      | _ \<Rightarrow> (if task_of e < length (tasks w)
              then continue_task lib e (tasks w ! task_of e) (task_of e) w
              else w))"

definition wexec ::
  "('s, 'r) library \<Rightarrow> ('s, 'r) wevent list \<Rightarrow> ('s, 'r) worker \<Rightarrow> ('s, 'r) worker" where
  "wexec lib es w = fold (wstep lib) es w"

section \<open>The service: \<^verbatim>\<open>GenericOnnxService\<close>\<close>

text \<open>
  The class extends \<^verbatim>\<open>GenericService\<close> of \<^verbatim>\<open>@epicurrents/core\<close>, whose source is not part of
  this repository. The commission registry and the waiter registry it inherits are
  modelled from sections 3, 4.1 and 4.2 of the specification; each such definition says so.
\<close>

datatype LoadingState = Not_loaded | Loading | Loaded | Error

text \<open>The waiter groups \<^verbatim>\<open>'init'\<close>, \<^verbatim>\<open>'load'\<close>, \<^verbatim>\<open>'pause'\<close> and \<^verbatim>\<open>'run'\<close>.\<close>

datatype phase = Ph_init | Ph_load | Ph_pause | Ph_run

datatype 'r val = V_bool bool | V_results "'r option list"

datatype 'r settlement = Resolved "'r val" | Rejected "string option"

text \<open>The async methods of the class; each awaits the promise of a commission it issued.\<close>

datatype api_method = M_cancelRun | M_loadModel | M_setupWorker | M_pauseRun | M_resumeRun | M_run

text \<open>
  A commission: its action, the method that awaits its promise, and whether it has a
  \<^verbatim>\<open>reject\<close> function (the handler tests \<^verbatim>\<open>commission.reject\<close> before calling it).
\<close>

record commission =
  c_action :: action
  c_awaited_by :: api_method
  c_reject :: bool

text \<open>
  Code that waits for a promise runs as a microtask once the promise is settled: the rest
  of a method after \<^verbatim>\<open>await commission.promise\<close>, or the rest of \<^verbatim>\<open>run\<close> after
  \<^verbatim>\<open>await this.modelLoadedPromise\<close> (with the samples of that call).
\<close>

datatype ('s, 'r) microtask = Continue api_method "'r settlement" | Wake "'s list"

text \<open>
  The object's state. \<open>progress_complete\<close> and \<open>progress_target\<close> are \<^verbatim>\<open>_progress.complete\<close>
  and \<^verbatim>\<open>_progress.target\<close>. \<open>commissions\<close>, \<open>nextRn\<close> and \<open>waiters\<close> belong to the base class.
  \<open>timers\<close> counts the pending \<^verbatim>\<open>setTimeout\<close> callbacks of \<^verbatim>\<open>pauseRun\<close>, \<open>outbox\<close> is what
  was posted to the worker. Two logs are kept for stating properties: \<open>settled\<close> records
  every call of a commission's \<^verbatim>\<open>resolve\<close> or \<^verbatim>\<open>reject\<close> (the commission's id and the \<^verbatim>\<open>rn\<close>
  of the message handled), \<open>returned\<close> the values the methods' promises resolved with.
  Property-change events and action watchers are observers outside the class and are
  not modelled.
\<close>

record ('s, 'r) service =
  isRunInProgress :: bool
  modelState :: LoadingState
  progress_complete :: int
  progress_target :: int
  commissions :: "nat \<rightharpoonup> commission"
  nextRn :: nat
  waiters :: "phase \<rightharpoonup> 's list list"
  microtasks :: "('s, 'r) microtask list"
  timers :: nat
  outbox :: "'s wmsg list"
  settled :: "(nat \<times> nat option) list"
  returned :: "(api_method \<times> 'r val) list"

text \<open>
  Modelled from the spec: \<^verbatim>\<open>_commissionWorker\<close> of the base class (section 4.1,
  \<open>commission(action, payload)\<close>): allocates a fresh correlation id, stores the commission
  under it and sends the message; it never blocks.
\<close>

definition commissionWorker ::
  "action \<Rightarrow> api_method \<Rightarrow> (nat \<Rightarrow> 's wmsg) \<Rightarrow> ('s, 'r) service \<Rightarrow> ('s, 'r) service" where
  "commissionWorker a m payload f =
     f\<lparr>commissions := (commissions f)(nextRn f \<mapsto> \<lparr>c_action = a, c_awaited_by = m, c_reject = True\<rparr>),
       nextRn := nextRn f + 1,
       outbox := outbox f @ [payload (nextRn f)]\<rparr>"

text \<open>
  Modelled from the spec: \<^verbatim>\<open>_getCommissionForMessage\<close> of the base class (sections 3 and
  4.1): the commission is looked up by the message's correlation id and removed from the
  registry on the first matching response; a message that matches none is ignored.
\<close>

definition getCommissionForMessage ::
  "'r message \<Rightarrow> ('s, 'r) service \<Rightarrow> (nat \<times> commission) option \<times> ('s, 'r) service" where
  "getCommissionForMessage m f =
     (case m_rn m of
        None \<Rightarrow> (None, f)
      | Some r \<Rightarrow>
          (case commissions f r of
             None \<Rightarrow> (None, f)
           | Some c \<Rightarrow> (Some (r, c), f\<lparr>commissions := (commissions f)(r := None)\<rparr>)))"

text \<open>
  Modelled from the spec: \<^verbatim>\<open>_initWaiters\<close> of the base class (section 4.2, \<open>beginPhase\<close>):
  creates an empty group, replacing any prior group of the same name.
\<close>

definition initWaiters :: "phase \<Rightarrow> ('s, 'r) service \<Rightarrow> ('s, 'r) service" where
  "initWaiters ph f = f\<lparr>waiters := (waiters f)(ph \<mapsto> [])\<rparr>"

text \<open>
  Modelled from the spec: \<^verbatim>\<open>_notifyWaiters\<close> of the base class (section 4.2, \<open>notify\<close>):
  resolves every joined promise with the outcome, then deletes the group. The only code
  of the class that joins a group is \<^verbatim>\<open>run\<close>, which ignores the outcome.
\<close>

definition notifyWaiters :: "phase \<Rightarrow> bool \<Rightarrow> ('s, 'r) service \<Rightarrow> ('s, 'r) service" where
  "notifyWaiters ph outcome f =
     (case waiters f ph of
        None \<Rightarrow> f
      | Some ws \<Rightarrow> f\<lparr>waiters := (waiters f)(ph := None), microtasks := microtasks f @ map Wake ws\<rparr>)"

text \<open>The promise of a commission is settled: the log, and the awaiting method continues.\<close>

definition settle ::
  "nat \<Rightarrow> commission \<Rightarrow> 'r message \<Rightarrow> 'r settlement \<Rightarrow> ('s, 'r) service \<Rightarrow> ('s, 'r) service" where
  "settle r c m s f =
     f\<lparr>settled := settled f @ [(r, m_rn m)],
       microtasks := microtasks f @ [Continue (c_awaited_by c) s]\<rparr>"

definition returns :: "api_method \<Rightarrow> 'r val \<Rightarrow> ('s, 'r) service \<Rightarrow> ('s, 'r) service" where
  "returns m v f = f\<lparr>returned := returned f @ [(m, v)]\<rparr>"

text \<open>
  The getter \<^verbatim>\<open>runProgress\<close>, lines 82-84. The two counters are integers; their quotient is
  taken in the reals.
\<close>

definition runProgress :: "('s, 'r) service \<Rightarrow> real" where
  "runProgress f =
     (if progress_target f \<noteq> 0 then real_of_int (progress_complete f) / real_of_int (progress_target f)
      else 0)"

text \<open>
  \<^verbatim>\<open>cancelRun\<close>, lines 86-94, up to its \<^verbatim>\<open>await\<close>. A method returns \<open>Some v\<close> when its promise
  is resolved with \<open>v\<close> at once and \<open>None\<close> while it awaits.
\<close>

definition cancelRun_service :: "('s, 'r) service \<Rightarrow> 'r val option \<times> ('s, 'r) service" where
  "cancelRun_service f =
     (if \<not> isRunInProgress f then (Some (V_bool False), f)
      else (None, commissionWorker Cancel M_cancelRun W_cancel
                    (notifyWaiters Ph_run False (f\<lparr>isRunInProgress := False\<rparr>))))"

text \<open>\<^verbatim>\<open>resetProgress\<close>, lines 200-216; the call of \<^verbatim>\<open>cancelRun\<close> is not awaited.\<close>

definition resetProgress :: "('s, 'r) service \<Rightarrow> ('s, 'r) service" where
  "resetProgress f =
     (let f1 = (if isRunInProgress f then snd (cancelRun_service f) else f)
      in f1\<lparr>progress_complete := 0, progress_target := 0\<rparr>)"

text \<open>\<^verbatim>\<open>loadModel\<close>, lines 136-147, up to its \<^verbatim>\<open>await\<close>.\<close>

definition loadModel :: "string \<Rightarrow> ('s, 'r) service \<Rightarrow> 'r val option \<times> ('s, 'r) service" where
  "loadModel path f =
     (None, commissionWorker Load_model M_loadModel (\<lambda>r. W_load_model r path None)
              (initWaiters Ph_load (f\<lparr>modelState := Loading\<rparr>)))"

text \<open>
  \<^verbatim>\<open>setupWorker\<close>, lines 159-173, up to its \<^verbatim>\<open>await\<close>. \<open>onnxDir\<close> is the directory the method
  computes from its configuration and the page's location.
\<close>

definition setupWorker :: "string \<Rightarrow> ('s, 'r) service \<Rightarrow> 'r val option \<times> ('s, 'r) service" where
  "setupWorker onnxDir f =
     (None, commissionWorker Setup_worker M_setupWorker (\<lambda>r. W_setup_worker r onnxDir) f)"

text \<open>\<^verbatim>\<open>pauseRun\<close>, lines 183-196, up to its \<^verbatim>\<open>await\<close>. A duration of 0 is falsy.\<close>

definition pauseRun :: "nat option \<Rightarrow> ('s, 'r) service \<Rightarrow> 'r val option \<times> ('s, 'r) service" where
  "pauseRun duration f =
     (if \<not> isRunInProgress f then (Some (V_bool False), f)
      else
        (let f1 = initWaiters Ph_pause f;
             f2 = f1\<lparr>isRunInProgress := False\<rparr>;
             f3 = (if duration \<noteq> None \<and> duration \<noteq> Some 0 then f2\<lparr>timers := timers f2 + 1\<rparr> else f2)
         in (None, commissionWorker Pause M_pauseRun W_pause f3)))"

text \<open>\<^verbatim>\<open>resumeRun\<close>, lines 218-226, up to its \<^verbatim>\<open>await\<close>.\<close>

definition resumeRun :: "('s, 'r) service \<Rightarrow> 'r val option \<times> ('s, 'r) service" where
  "resumeRun f =
     (if isRunInProgress f then (Some (V_bool False), f)
      else (None, commissionWorker Resume M_resumeRun W_resume
                    (notifyWaiters Ph_pause True (f\<lparr>isRunInProgress := True\<rparr>))))"

text \<open>\<^verbatim>\<open>run\<close> from line 241 on, up to \<^verbatim>\<open>await commission.promise\<close>.\<close>

definition run_rest :: "'s list \<Rightarrow> ('s, 'r) service \<Rightarrow> 'r val option \<times> ('s, 'r) service" where
  "run_rest smp f =
     (if smp = [] then (Some (V_results []), f)
      else
        (let f1 = resetProgress f;
             f2 = f1\<lparr>progress_target := int (length smp)\<rparr>;
             f3 = f2\<lparr>isRunInProgress := True\<rparr>;
             f4 = initWaiters Ph_run f3
         in (None, commissionWorker Run M_run (\<lambda>r. W_run r (Some smp)) f4)))"

text \<open>
  \<^verbatim>\<open>run\<close>, lines 230-240. While the model is loading the call awaits
  \<^verbatim>\<open>modelLoadedPromise\<close> (lines 68-73): it joins the group \<^verbatim>\<open>'load'\<close>, or, when there is no
  such group, awaits an already resolved promise. Modelled from the spec: \<^verbatim>\<open>awaitAction\<close> of
  the base class (section 4.2, \<open>await\<close>) returns a promise that joins the group.
\<close>

definition run_service :: "'s list \<Rightarrow> ('s, 'r) service \<Rightarrow> 'r val option \<times> ('s, 'r) service" where
  "run_service smp f =
     (if isRunInProgress f then (Some (V_results []), f)
      else if modelState f = Loading then
        (case waiters f Ph_load of
           None \<Rightarrow> (None, f\<lparr>microtasks := microtasks f @ [Wake smp]\<rparr>)
         | Some ws \<Rightarrow> (None, f\<lparr>waiters := (waiters f)(Ph_load \<mapsto> ws @ [smp])\<rparr>))
      else if modelState f \<noteq> Loaded then (Some (V_results []), f)
      else run_rest smp f)"

text \<open>
  \<^verbatim>\<open>handleWorkerResponse\<close>, lines 99-134. \<open>base\<close> is \<^verbatim>\<open>super._handleWorkerCommission\<close> of the
  base class, a parameter: for a message it gives the value the call returns and how it
  settles the commission of that message, if at all.
\<close>

definition handleWorkerResponse ::
  "('r message \<Rightarrow> bool \<times> 'r settlement option) \<Rightarrow> 'r message \<Rightarrow> ('s, 'r) service
     \<Rightarrow> bool \<times> ('s, 'r) service" where
  "handleWorkerResponse base m f =
     (case m_action m of
        None \<Rightarrow> (False, f)
      | Some a \<Rightarrow>
          (case getCommissionForMessage m f of
             (None, f') \<Rightarrow> (False, f')
           | (Some (r, c), f') \<Rightarrow>
               (if a = Load_model then
                  (True,
                   if m_success m then settle r c m (Resolved (V_bool (m_success m))) f'
                   else if c_reject c then settle r c m (Rejected (m_error m)) f'
                   else f')
                else if a = Pause then (True, settle r c m (Resolved (V_bool (m_success m))) f')
                else if a = Progress then (True, f'\<lparr>progress_complete := m_complete m\<rparr>)
                else if a = Resume then (True, settle r c m (Resolved (V_bool (m_success m))) f')
                else if a = Run then
                  (True,
                   if m_success m then settle r c m (Resolved (V_results (m_results m))) f'
                   else if c_reject c then settle r c m (Rejected (m_error m)) f'
                   else f')
                else (case base m of
                        (b, None) \<Rightarrow> (b, f')
                      | (b, Some s) \<Rightarrow> (b, settle r c m s f')))))"

text \<open>
  The rest of each method after its \<^verbatim>\<open>await\<close>: \<^verbatim>\<open>loadModel\<close> lines 147-156, \<^verbatim>\<open>setupWorker\<close>
  lines 173-180, \<^verbatim>\<open>cancelRun\<close> lines 94-96, \<^verbatim>\<open>pauseRun\<close> and \<^verbatim>\<open>resumeRun\<close> their last two
  lines, \<^verbatim>\<open>run\<close> lines 258-262. Only \<^verbatim>\<open>loadModel\<close> and \<^verbatim>\<open>setupWorker\<close> catch a rejection; in
  the other methods it ends the call.
\<close>

fun continue_method :: "api_method \<Rightarrow> 'r settlement \<Rightarrow> ('s, 'r) service \<Rightarrow> ('s, 'r) service" where
  "continue_method M_loadModel (Resolved v) f =
     returns M_loadModel v (notifyWaiters Ph_load True (f\<lparr>modelState := Loaded\<rparr>))"
| "continue_method M_loadModel (Rejected e) f =
     returns M_loadModel (V_bool False) (notifyWaiters Ph_load False (f\<lparr>modelState := Error\<rparr>))"
| "continue_method M_setupWorker (Resolved v) f =
     returns M_setupWorker v (notifyWaiters Ph_init True f)"
| "continue_method M_setupWorker (Rejected e) f =
     returns M_setupWorker (V_bool False) (notifyWaiters Ph_init False f)"
| "continue_method M_cancelRun (Resolved v) f = returns M_cancelRun v (resetProgress f)"
| "continue_method M_pauseRun (Resolved v) f = returns M_pauseRun v f"
| "continue_method M_resumeRun (Resolved v) f = returns M_resumeRun v f"
| "continue_method M_run (Resolved v) f =
     returns M_run v (notifyWaiters Ph_run True (f\<lparr>isRunInProgress := False\<rparr>))"
| "continue_method m (Rejected e) f = f"

definition completes :: "api_method \<Rightarrow> 'r val option \<times> ('s, 'r) service \<Rightarrow> ('s, 'r) service" where
  "completes m p = (case p of (Some v, f) \<Rightarrow> returns m v f | (None, f) \<Rightarrow> f)"

fun run_microtask :: "('s, 'r) microtask \<Rightarrow> ('s, 'r) service \<Rightarrow> ('s, 'r) service" where
  "run_microtask (Continue m s) f = continue_method m s f"
| "run_microtask (Wake smp) f = completes M_run (run_rest smp f)"

text \<open>The number of queued microtasks and of joined waiters: it bounds the queue's work.\<close>

definition joined :: "('s, 'r) service \<Rightarrow> phase \<Rightarrow> nat" where
  "joined f ph = (case waiters f ph of None \<Rightarrow> 0 | Some ws \<Rightarrow> length ws)"

definition pending_work :: "('s, 'r) service \<Rightarrow> nat" where
  "pending_work f =
     length (microtasks f) + joined f Ph_init + joined f Ph_load + joined f Ph_pause + joined f Ph_run"

lemma joined_unchanged [simp]:
  "joined (f\<lparr>microtasks := q\<rparr>) = joined f"
  "joined (f\<lparr>isRunInProgress := b\<rparr>) = joined f"
  "joined (f\<lparr>modelState := ms\<rparr>) = joined f"
  "joined (f\<lparr>progress_complete := i\<rparr>) = joined f"
  "joined (f\<lparr>progress_target := i\<rparr>) = joined f"
  "joined (f\<lparr>returned := rs\<rparr>) = joined f"
  by (simp_all add: joined_def fun_eq_iff)

lemma pending_work_flags [simp]:
  "pending_work (f\<lparr>isRunInProgress := b\<rparr>) = pending_work f"
  "pending_work (f\<lparr>modelState := ms\<rparr>) = pending_work f"
  "pending_work (f\<lparr>progress_complete := i\<rparr>) = pending_work f"
  "pending_work (f\<lparr>progress_target := i\<rparr>) = pending_work f"
  by (simp_all add: pending_work_def)

lemma pending_work_commissionWorker [simp]:
  "pending_work (commissionWorker a m payload f) = pending_work f"
  by (simp add: pending_work_def commissionWorker_def joined_def)

lemma pending_work_returns [simp]: "pending_work (returns m v f) = pending_work f"
  by (simp add: pending_work_def returns_def)

lemma pending_work_notifyWaiters [simp]: "pending_work (notifyWaiters ph b f) = pending_work f"
  by (cases ph) (auto simp: pending_work_def notifyWaiters_def joined_def split: option.splits)

lemma pending_work_initWaiters: "pending_work (initWaiters ph f) \<le> pending_work f"
  by (cases ph) (auto simp: pending_work_def initWaiters_def joined_def split: option.splits)

lemma pending_work_resetProgress [simp]: "pending_work (resetProgress f) = pending_work f"
  by (simp add: resetProgress_def cancelRun_service_def Let_def)

lemma pending_work_run_rest: "pending_work (snd (run_rest smp f)) \<le> pending_work f"
  using pending_work_initWaiters
    [of Ph_run "(resetProgress f)\<lparr>progress_target := int (length smp), isRunInProgress := True\<rparr>"]
  by (simp add: run_rest_def Let_def)

lemma pending_work_run_microtask: "pending_work (run_microtask t f) \<le> pending_work f"
proof (cases t)
  case (Continue m s)
  then show ?thesis by (cases m; cases s) simp_all
next
  case (Wake smp)
  then show ?thesis
    using pending_work_run_rest [of smp f]
    by (cases "run_rest smp f") (auto simp: completes_def split: option.splits)
qed

text \<open>
  The microtask queue is run until it is empty before the next message or call is
  handled. A microtask may queue others (a notified group wakes its waiters); the loop
  ends because no microtask joins a group.
\<close>

function drain :: "('s, 'r) service \<Rightarrow> ('s, 'r) service" where
  "drain f =
     (case microtasks f of
        [] \<Rightarrow> f
      | t # ts \<Rightarrow> drain (run_microtask t (f\<lparr>microtasks := ts\<rparr>)))"
  by pat_completeness auto
termination
proof (relation "measure pending_work")
  show "wf (measure pending_work)" by simp
next
  fix f :: "('s, 'r) service" and t ts
  assume "microtasks f = t # ts"
  then have "pending_work (f\<lparr>microtasks := ts\<rparr>) < pending_work f"
    by (simp add: pending_work_def)
  with pending_work_run_microtask [of t "f\<lparr>microtasks := ts\<rparr>"]
  show "(run_microtask t (f\<lparr>microtasks := ts\<rparr>), f) \<in> measure pending_work"
    by simp
qed

declare drain.simps [simp del]

text \<open>
  What happens to the service: a method is called, a message arrives from the worker,
  or a timer set by \<^verbatim>\<open>pauseRun\<close> fires and calls \<^verbatim>\<open>resumeRun\<close>.
\<close>

datatype ('s, 'r) event =
    Call_setupWorker string
  | Call_loadModel string
  | Call_run "'s list"
  | Call_pauseRun "nat option"
  | Call_resumeRun
  | Call_cancelRun
  | Call_resetProgress
  | Deliver "'r message"
  | Timeout

fun handle ::
  "('r message \<Rightarrow> bool \<times> 'r settlement option) \<Rightarrow> ('s, 'r) event \<Rightarrow> ('s, 'r) service
     \<Rightarrow> ('s, 'r) service" where
  "handle base (Call_setupWorker d) f = completes M_setupWorker (setupWorker d f)"
| "handle base (Call_loadModel path) f = completes M_loadModel (loadModel path f)"
| "handle base (Call_run smp) f = completes M_run (run_service smp f)"
| "handle base (Call_pauseRun duration) f = completes M_pauseRun (pauseRun duration f)"
| "handle base Call_resumeRun f = completes M_resumeRun (resumeRun f)"
| "handle base Call_cancelRun f = completes M_cancelRun (cancelRun_service f)"
| "handle base Call_resetProgress f = resetProgress f"
| "handle base (Deliver m) f = snd (handleWorkerResponse base m f)"
| "handle base Timeout f =
     (if timers f = 0 then f else completes M_resumeRun (resumeRun (f\<lparr>timers := timers f - 1\<rparr>)))"

definition step ::
  "('r message \<Rightarrow> bool \<times> 'r settlement option) \<Rightarrow> ('s, 'r) event \<Rightarrow> ('s, 'r) service
     \<Rightarrow> ('s, 'r) service" where
  "step base e f = drain (handle base e f)"

definition exec ::
  "('r message \<Rightarrow> bool \<times> 'r settlement option) \<Rightarrow> ('s, 'r) event list \<Rightarrow> ('s, 'r) service
     \<Rightarrow> ('s, 'r) service" where
  "exec base es f = fold (step base) es f"

text \<open>
  The constructor, lines 22-49: the field initialisers, \<^verbatim>\<open>_initWaiters('init')\<close> and the
  call of \<^verbatim>\<open>setupWorker\<close>.
\<close>

definition blank_service :: "('s, 'r) service" where
  "blank_service = \<lparr>isRunInProgress = False, modelState = Not_loaded, progress_complete = 0,
     progress_target = 0, commissions = Map.empty, nextRn = 0, waiters = Map.empty,
     microtasks = [], timers = 0, outbox = [], settled = [], returned = []\<rparr>"

definition new_service :: "string \<Rightarrow> ('s, 'r) service" where
  "new_service onnxDir = snd (setupWorker onnxDir (initWaiters Ph_init blank_service))"

section \<open>Notions used to state the properties\<close>

subsection \<open>Worker\<close>

text \<open>
  Two libraries. \<open>accepting\<close> accepts every message and builds every tensor.
  \<open>strict refusal\<close> refuses a message that lacks a property its handler asks for (the
  dimensions of a load message, lines 40-49, the samples of a run message, lines 115-120),
  posting what \<open>refusal\<close> says, and accepts every other one.
\<close>

definition accepting :: "('s, 'r) library" where
  "accepting = \<lparr>validateCommissionProps = (\<lambda>m. (True, [])), new_Tensor = (\<lambda>s d. True)\<rparr>"

definition has_props :: "'s wmsg \<Rightarrow> bool" where
  "has_props m =
     (case m of W_run r None \<Rightarrow> False | W_load_model r path None \<Rightarrow> False | _ \<Rightarrow> True)"

definition strict :: "('s wmsg \<Rightarrow> 'r message list) \<Rightarrow> ('s, 'r) library" where
  "strict refusal =
     \<lparr>validateCommissionProps = (\<lambda>m. if has_props m then (True, []) else (False, refusal m)),
      new_Tensor = (\<lambda>s d. True)\<rparr>"

text \<open>
  The worker between two events when no run is under way: the flag \<^verbatim>\<open>RUN.continue\<close> is
  off, \<^verbatim>\<open>RUN.sampleIdx\<close> is 0, the only suspended calls are model loads, the engine has
  never been invoked and no result object has been written.
\<close>

definition is_create :: "'s task \<Rightarrow> bool" where
  "is_create t = (case t of Await_create r path dims \<Rightarrow> True | _ \<Rightarrow> False)"

definition idle :: "('s, 'r) worker \<Rightarrow> bool" where
  "idle w =
     (\<not> continue w \<and> sampleIdx w = 0 \<and> list_all is_create (tasks w) \<and> inferences w = []
      \<and> (results w = [] \<or> session w \<noteq> None)
      \<and> list_all (\<lambda>obj. obj = \<lparr>success = None, value = None\<rparr>) (objects w))"

text \<open>
  All entries of \<^verbatim>\<open>RUN.results\<close> are one address, that of an object of the heap.
\<close>

definition shared :: "('s, 'r) worker \<Rightarrow> bool" where
  "shared w =
     ((\<forall>a \<in> set (results w). \<forall>b \<in> set (results w). a = b)
      \<and> (\<forall>a \<in> set (results w). a < length (objects w)))"

text \<open>
  \<open>latest outs\<close> is one result object after the outcomes \<open>outs\<close> were written to it one
  after the other, and \<open>progress_of n outs k\<close> the progress message of lines 257-261 after
  sample \<open>k\<close> when all \<open>n\<close> entries are that object.
\<close>

definition latest :: "'r option list \<Rightarrow> 'r sample_result" where
  "latest outs = foldl overwrite \<lparr>success = None, value = None\<rparr> outs"

definition progress_of :: "nat \<Rightarrow> 'r option list \<Rightarrow> nat \<Rightarrow> 'r message" where
  "progress_of n outs k =
     blank\<lparr>m_action := Some Progress, m_complete := int k + 1,
       m_successes := replicate n (success (latest (take (Suc k) outs)))\<rparr>"


definition after_run :: "(nat, nat) worker" where
  "after_run = wexec accepting
     [Recv (W_load_model 1 ''model.onnx'' (Some [1, 3])), Created 0 (Some 1),
      Recv (W_run 2 (Some [10, 11, 12]))] worker_init"

definition after_pause :: "(nat, nat) worker" where
  "after_pause = wstep accepting (Recv (W_pause 3)) after_run"

subsection \<open>Service\<close>

text \<open>
  The registry is in order when every stored commission has an id below \<open>nextRn\<close>, every
  settled id is below \<open>nextRn\<close>, no longer stored and was settled by a message with that
  id, and no id was settled twice.
\<close>

definition registry_ok :: "('s, 'r) service \<Rightarrow> bool" where
  "registry_ok f =
     ((\<forall>r. commissions f r \<noteq> None \<longrightarrow> r < nextRn f)
      \<and> (\<forall>p \<in> set (settled f).
            fst p < nextRn f \<and> commissions f (fst p) = None \<and> snd p = Some (fst p))
      \<and> distinct (map fst (settled f)))"

text \<open>
  The messages of the worker of this repository: a response copies the \<^verbatim>\<open>rn\<close> of its
  request, a progress message (lines 257-261 of the worker) has none.
\<close>

definition worker_message :: "'r message \<Rightarrow> bool" where
  "worker_message m = (m_action m \<noteq> Some Progress \<or> m_rn m = None)"

definition from_worker :: "('s, 'r) event \<Rightarrow> bool" where
  "from_worker e = (case e of Deliver m \<Rightarrow> worker_message m | _ \<Rightarrow> True)"

definition progress_ok :: "('s, 'r) service \<Rightarrow> bool" where
  "progress_ok f = (progress_complete f = 0 \<and> 0 \<le> progress_target f)"

text \<open>
  A base class whose handler settles nothing, and three states of a service made with
  it: a model is being loaded; a model is loaded and a run of three samples is in
  progress; that run has been paused.
\<close>

definition no_base :: "'r message \<Rightarrow> bool \<times> 'r settlement option" where
  "no_base m = (False, None)"

definition loading_service :: "(nat, nat) service" where
  "loading_service = exec no_base [Call_loadModel ''model.onnx''] (new_service ''/onnx'')"

definition running_service :: "(nat, nat) service" where
  "running_service = exec no_base
     [Call_loadModel ''model.onnx'', Deliver (reply Load_model 1 True None), Call_run [10, 11, 12]]
     (new_service ''/onnx'')"


text \<open>
  \<open>grows f g\<close>: from \<open>f\<close> to \<open>g\<close> the queue and the outbox were only appended to, the
  queue by woken calls of \<^verbatim>\<open>run\<close>, no correlation id was taken back and the model state
  is the same.
\<close>

definition is_wake :: "('s, 'r) microtask \<Rightarrow> bool" where
  "is_wake t = (case t of Wake smp \<Rightarrow> True | _ \<Rightarrow> False)"

definition grows :: "('s, 'r) service \<Rightarrow> ('s, 'r) service \<Rightarrow> bool" where
  "grows f g =
     ((\<exists>wk. microtasks g = microtasks f @ wk \<and> list_all is_wake wk)
      \<and> (\<exists>ob. outbox g = outbox f @ ob) \<and> nextRn f \<le> nextRn g \<and> modelState g = modelState f)"

section \<open>Properties of the worker\<close>

subsection \<open>No run ever gets past its first checkpoint\<close>

text \<open>
  \<^verbatim>\<open>RUN.continue\<close> starts \<^verbatim>\<open>false\<close>; \<^verbatim>\<open>run\<close> never sets it, and \<^verbatim>\<open>resume\<close> sets it only for the
  call of \<^verbatim>\<open>run([])\<close>, which ends in \<^verbatim>\<open>resetRun\<close>. So from the initial state the worker is
  \<open>idle\<close> after every event, whatever arrives and whatever the library does.
\<close>

lemma wexec_snoc: "wexec lib (es @ [e]) w = wstep lib e (wexec lib es w)"
  by (simp add: wexec_def)

lemma idle_init: "idle worker_init"
  by (simp add: idle_def worker_init_def)

lemma idle_posted [simp]: "idle (w\<lparr>posted := ms\<rparr>) = idle w"
  by (simp add: idle_def)

lemma idle_run: "idle w \<Longrightarrow> idle (run lib c arg w)"
  by (cases c; cases arg)
     (auto simp: idle_def run_def run_entry_def loop_head_def finish_def resetRun_def
        settle_run_def post_def)

lemma idle_onmessage: "idle w \<Longrightarrow> idle (onmessage lib m w)"
proof (cases m)
  case (W_resume r)
  assume "idle w"
  then have "idle (run lib By_resume (Some []) (w\<lparr>continue := True\<rparr>))"
    by (auto simp: idle_def run_def run_entry_def loop_head_def finish_def resetRun_def
        settle_run_def)
  with \<open>idle w\<close> W_resume show ?thesis
    by (simp add: answer_def resume_def post_def)
next
  case (W_run r arg)
  assume "idle w"
  with W_run show ?thesis
    by (cases "validateCommissionProps lib m") (auto simp: validated_def idle_run)
qed (auto simp: idle_def is_create_def cancelRun_def pause_def answer_def post_def validated_def
      split: prod.splits)

lemma idle_drop_task: "idle w \<Longrightarrow> idle (drop_task k w)"
  by (auto simp: idle_def drop_task_def list_all_iff dest: in_set_takeD in_set_dropD)

lemma idle_after_create: "idle w \<Longrightarrow> idle (after_create r dims created w)"
  by (auto simp: idle_def after_create_def post_def split: option.splits)

lemma idle_task:
  assumes "idle w" "k < length (tasks w)"
  obtains r path dims where "tasks w ! k = Await_create r path dims"
proof -
  from assms have "is_create (tasks w ! k)" by (simp add: idle_def list_all_length)
  then show thesis using that by (auto simp: is_create_def split: task.splits)
qed

lemma idle_wstep:
  assumes "idle w"
  shows "idle (wstep lib e w)"
proof (cases "\<exists>m. e = Recv m")
  case True
  with assms show ?thesis by (auto simp: wstep_def idle_onmessage)
next
  case recv: False
  show ?thesis
  proof (cases "task_of e < length (tasks w)")
    case True
    from idle_task [OF assms True] obtain r path dims
      where t: "tasks w ! task_of e = Await_create r path dims" .
    with assms True recv show ?thesis
      by (cases e) (simp_all add: wstep_def idle_after_create idle_drop_task)
  next
    case False
    with assms recv show ?thesis by (cases e) (simp_all add: wstep_def)
  qed
qed

lemma idle_wexec: "idle w \<Longrightarrow> idle (wexec lib es w)"
proof (induction es rule: rev_induct)
  case Nil
  then show ?case by (simp add: wexec_def)
next
  case (snoc e es)
  then show ?case by (simp add: wexec_snoc idle_wstep)
qed

lemma idle_reached: "idle (wexec lib es worker_init)"
  by (rule idle_wexec) (rule idle_init)

lemma engine_never_invoked: "inferences (wexec lib es worker_init) = []"
  using idle_reached [of lib es] by (simp add: idle_def)

subsection \<open>The value of \<^verbatim>\<open>run\<close> and the response to a run message\<close>

lemma never_null:
  "fst (run_entry lib arg w) \<noteq> Returned None \<and> fst (loop_head lib smp w) \<noteq> Returned None"
  by (simp add: run_entry_def loop_head_def finish_def split: prod.splits option.splits)

lemma deliver_posts:
  "ret \<noteq> None \<Longrightarrow>
     \<exists>rest. posted (deliver c ret w) = posted w @ rest
       \<and> (rest = [] \<or> (\<exists>r rs. c = By_onmessage r \<and> rest = [(reply Run r True None)\<lparr>m_results := rs\<rparr>]))"
  by (cases c; cases ret) (simp_all add: post_def, blast)

lemma settle_run_posts:
  assumes "fst p \<noteq> Returned None"
  shows "\<exists>rest. posted (settle_run c smp p) = posted (snd p) @ rest
       \<and> (rest = [] \<or> (\<exists>r rs. c = By_onmessage r \<and> rest = [(reply Run r True None)\<lparr>m_results := rs\<rparr>]))"
proof (cases p)
  case (Pair st w)
  show ?thesis
  proof (cases st)
    case (Returned ret)
    with assms Pair have "ret \<noteq> None" by simp
    from deliver_posts [OF this, of c w] Pair Returned show ?thesis
      by (simp add: settle_run_def)
  qed (simp_all add: Pair settle_run_def)
qed

lemma posted_run_entry [simp]: "posted (snd (run_entry lib arg w)) = posted w"
  by (simp add: run_entry_def loop_head_def finish_def resetRun_def split: option.splits)

lemma posted_loop_head [simp]: "posted (snd (loop_head lib smp w)) = posted w"
  by (simp add: loop_head_def finish_def resetRun_def)

lemma run_posts:
  "\<exists>rest. posted (run lib c arg w) = posted w @ rest
       \<and> (rest = [] \<or> (\<exists>r rs. c = By_onmessage r \<and> rest = [(reply Run r True None)\<lparr>m_results := rs\<rparr>]))"
  using settle_run_posts [of "run_entry lib arg w" c "case arg of None \<Rightarrow> [] | Some smp \<Rightarrow> smp"]
  by (simp add: run_def never_null)

lemma after_sleep_posts:
  "\<exists>rest. posted (after_sleep lib c smp w) = posted w @ rest
       \<and> (rest = [] \<or> (\<exists>r rs. c = By_onmessage r \<and> rest = [(reply Run r True None)\<lparr>m_results := rs\<rparr>]))"
  using settle_run_posts [of "loop_head lib smp (w\<lparr>sampleIdx := sampleIdx w + 1\<rparr>)" c smp]
  by (simp add: after_sleep_def never_null)

lemma onmessage_run_posts:
  "\<exists>rest. posted (onmessage lib (W_run r arg) w) =
       posted w @ snd (validateCommissionProps lib (W_run r arg)) @ rest
     \<and> (rest = [] \<or> (\<exists>rs. rest = [(reply Run r True None)\<lparr>m_results := rs\<rparr>]))"
proof (cases "validateCommissionProps lib (W_run r arg)")
  case (Pair ok ms)
  show ?thesis
  proof (cases ok)
    case True
    from run_posts [of lib "By_onmessage r" arg "w\<lparr>posted := posted w @ ms\<rparr>"]
    show ?thesis using Pair True by (auto simp: validated_def)
  next
    case False
    with Pair show ?thesis by (simp add: validated_def)
  qed
qed

lemma idle_run_answer:
  assumes "idle w" "fst (validateCommissionProps lib (W_run r (Some smp)))"
  shows "posted (wstep lib (Recv (W_run r (Some smp))) w) =
      posted w @ snd (validateCommissionProps lib (W_run r (Some smp)))
        @ [(reply Run r True None)\<lparr>m_results :=
             replicate (if session w = None then 0 else length smp) None\<rparr>]
    \<and> tasks (wstep lib (Recv (W_run r (Some smp))) w) = tasks w
    \<and> uncaught (wstep lib (Recv (W_run r (Some smp))) w) = uncaught w"
  using assms
  by (cases "validateCommissionProps lib (W_run r (Some smp))")
     (auto simp: idle_def wstep_def validated_def run_def run_entry_def loop_head_def finish_def
        settle_run_def resetRun_def post_def reply_def blank_def map_replicate_const)

lemma refused_run:
  "\<not> fst (validateCommissionProps lib (W_run r arg)) \<Longrightarrow>
     onmessage lib (W_run r arg) w =
       w\<lparr>posted := posted w @ snd (validateCommissionProps lib (W_run r arg))\<rparr>"
  by (cases "validateCommissionProps lib (W_run r arg)") (simp add: validated_def)

text \<open>
  C9, as the claim states it, fails: a run message without samples, which a library
  that checks the properties asked for at lines 115-120 refuses, receives no response
  with \<^verbatim>\<open>success: true\<close>. The handler returns at lines 121-123; what is posted is what the
  library posts: nothing, or an answer with \<^verbatim>\<open>success: false\<close>.
\<close>

theorem run_message_refused:
  "posted (wstep (strict (\<lambda>m. [])) (Recv (W_run 2 None)) (worker_init :: (nat, nat) worker)) = []
   \<and> posted (wstep (strict (\<lambda>m. [reply Run 2 False None])) (Recv (W_run 2 None))
        (worker_init :: (nat, nat) worker)) = [reply Run 2 False None]"
  by (simp add: wstep_def validated_def strict_def has_props_def worker_init_def)

text \<open>
  C9, amended. \<^verbatim>\<open>run\<close> never returns \<^verbatim>\<open>null\<close>: whatever the state, the argument and the
  library, with or without a session, neither its entry nor its loop yields
  \<open>Returned None\<close>. Hence the failure branch of the run message handler is unreachable:
  what the handler posts after the library's own messages, at once or when a suspended
  call ends, is nothing or one response with \<^verbatim>\<open>success: true\<close>. From the initial state, a
  run message that carries its samples and that \<^verbatim>\<open>validateCommissionProps\<close> accepts is
  answered at once by exactly one message, with \<^verbatim>\<open>success: true\<close>, its \<^verbatim>\<open>rn\<close> and an array
  (empty without a session, else one \<^verbatim>\<open>null\<close> per sample), and no call is suspended or
  rejected. A run message that \<^verbatim>\<open>validateCommissionProps\<close> refuses changes nothing and gets
  no response from the handler.
\<close>

theorem run_never_returns_null:
  "(\<forall>arg smp (w :: ('s, 'r) worker).
      fst (run_entry lib arg w) \<noteq> Returned None \<and> fst (loop_head lib smp w) \<noteq> Returned None)
   \<and> (\<forall>r arg (w :: ('s, 'r) worker).
        \<exists>rest. posted (onmessage lib (W_run r arg) w) =
                 posted w @ snd (validateCommissionProps lib (W_run r arg)) @ rest
          \<and> (rest = [] \<or> (\<exists>rs. rest = [(reply Run r True None)\<lparr>m_results := rs\<rparr>])))
   \<and> (\<forall>r smp (w :: ('s, 'r) worker).
        \<exists>rest. posted (after_sleep lib (By_onmessage r) smp w) = posted w @ rest
          \<and> (rest = [] \<or> (\<exists>rs. rest = [(reply Run r True None)\<lparr>m_results := rs\<rparr>])))
   \<and> (\<forall>es r smp. fst (validateCommissionProps lib (W_run r (Some smp))) \<longrightarrow>
        (let w = wexec lib es (worker_init :: ('s, 'r) worker);
             w' = wstep lib (Recv (W_run r (Some smp))) w
         in posted w' = posted w @ snd (validateCommissionProps lib (W_run r (Some smp)))
                 @ [(reply Run r True None)\<lparr>m_results :=
                      replicate (if session w = None then 0 else length smp) None\<rparr>]
            \<and> tasks w' = tasks w \<and> uncaught w' = uncaught w))
   \<and> (\<forall>r arg (w :: ('s, 'r) worker). \<not> fst (validateCommissionProps lib (W_run r arg)) \<longrightarrow>
        onmessage lib (W_run r arg) w =
          w\<lparr>posted := posted w @ snd (validateCommissionProps lib (W_run r arg))\<rparr>)"
proof (intro conjI allI impI)
  fix arg smp and w :: "('s, 'r) worker"
  show "fst (run_entry lib arg w) \<noteq> Returned None" "fst (loop_head lib smp w) \<noteq> Returned None"
    by (simp_all add: never_null)
next
  fix r arg and w :: "('s, 'r) worker"
  show "\<exists>rest. posted (onmessage lib (W_run r arg) w) =
                 posted w @ snd (validateCommissionProps lib (W_run r arg)) @ rest
          \<and> (rest = [] \<or> (\<exists>rs. rest = [(reply Run r True None)\<lparr>m_results := rs\<rparr>]))"
    by (rule onmessage_run_posts)
next
  fix r smp and w :: "('s, 'r) worker"
  from after_sleep_posts [of lib "By_onmessage r" smp w]
  show "\<exists>rest. posted (after_sleep lib (By_onmessage r) smp w) = posted w @ rest
          \<and> (rest = [] \<or> (\<exists>rs. rest = [(reply Run r True None)\<lparr>m_results := rs\<rparr>]))"
    by auto
next
  fix es :: "('s, 'r) wevent list" and r smp
  assume v: "fst (validateCommissionProps lib (W_run r (Some smp)))"
  from idle_run_answer [OF idle_reached [of lib es] v]
  show "let w = wexec lib es (worker_init :: ('s, 'r) worker);
            w' = wstep lib (Recv (W_run r (Some smp))) w
        in posted w' = posted w @ snd (validateCommissionProps lib (W_run r (Some smp)))
                @ [(reply Run r True None)\<lparr>m_results :=
                     replicate (if session w = None then 0 else length smp) None\<rparr>]
           \<and> tasks w' = tasks w \<and> uncaught w' = uncaught w"
    by (simp add: Let_def)
next
  fix r arg and w :: "('s, 'r) worker"
  assume "\<not> fst (validateCommissionProps lib (W_run r arg))"
  then show "onmessage lib (W_run r arg) w =
      w\<lparr>posted := posted w @ snd (validateCommissionProps lib (W_run r arg))\<rparr>"
    by (rule refused_run)
qed

lemma after_load_fields:
  "posted (wexec accepting
      [Recv (W_load_model 1 ''model.onnx'' (Some [1, 3])), Created 0 (Some 1)]
      (worker_init :: (nat, nat) worker)) = [reply Load_model 1 True None]"
  "session (wexec accepting
      [Recv (W_load_model 1 ''model.onnx'' (Some [1, 3])), Created 0 (Some 1)]
      (worker_init :: (nat, nat) worker)) = Some 1"
  by (simp_all add: wexec_def wstep_def worker_init_def drop_task_def after_create_def post_def
      validated_def accepting_def)

theorem run_never_returns_null_witness:
  "posted (wstep accepting (Recv (W_run 2 (Some [10, 11])))
     (wexec accepting [Recv (W_load_model 1 ''model.onnx'' (Some [1, 3])), Created 0 (Some 1)]
        (worker_init :: (nat, nat) worker)))
     = [reply Load_model 1 True None, (reply Run 2 True None)\<lparr>m_results := [None, None]\<rparr>]
   \<and> onmessage (strict (\<lambda>m. [])) (W_run 2 None) (worker_init :: (nat, nat) worker) = worker_init"
proof -
  let ?w = "wexec accepting [Recv (W_load_model 1 ''model.onnx'' (Some [1, 3])), Created 0 (Some 1)]
        (worker_init :: (nat, nat) worker)"
  have a: "fst (validateCommissionProps (accepting :: (nat, nat) library) (W_run 2 (Some [10, 11])))"
    "snd (validateCommissionProps (accepting :: (nat, nat) library) (W_run 2 (Some [10, 11]))) = []"
    by (simp_all add: accepting_def)
  note t = run_never_returns_null [of "accepting :: (nat, nat) library"]
  from t have "\<forall>es r smp. fst (validateCommissionProps (accepting :: (nat, nat) library) (W_run r (Some smp))) \<longrightarrow>
        (let w = wexec accepting es (worker_init :: (nat, nat) worker);
             w' = wstep accepting (Recv (W_run r (Some smp))) w
         in posted w' = posted w @ snd (validateCommissionProps accepting (W_run r (Some smp)))
                 @ [(reply Run r True None)\<lparr>m_results :=
                      replicate (if session w = None then 0 else length smp) None\<rparr>]
            \<and> tasks w' = tasks w \<and> uncaught w' = uncaught w)"
    by blast
  with a(1) have "posted (wstep accepting (Recv (W_run 2 (Some [10, 11]))) ?w) =
      posted ?w @ snd (validateCommissionProps (accepting :: (nat, nat) library) (W_run 2 (Some [10, 11])))
        @ [(reply Run 2 True None)\<lparr>m_results :=
             replicate (if session ?w = None then 0 else length [10, 11 :: nat]) None\<rparr>]"
    unfolding Let_def by blast
  then have p: "posted (wstep accepting (Recv (W_run 2 (Some [10, 11]))) ?w)
     = [reply Load_model 1 True None, (reply Run 2 True None)\<lparr>m_results := [None, None]\<rparr>]"
    unfolding after_load_fields a by (simp add: numeral_2_eq_2)
  have s: "\<not> fst (validateCommissionProps (strict (\<lambda>m. []) :: (nat, nat) library) (W_run 2 None))"
    "snd (validateCommissionProps (strict (\<lambda>m. []) :: (nat, nat) library) (W_run 2 None)) = []"
    by (simp_all add: strict_def has_props_def)
  from run_never_returns_null [of "strict (\<lambda>m. []) :: (nat, nat) library"]
  have "\<forall>r arg (w :: (nat, nat) worker).
      \<not> fst (validateCommissionProps (strict (\<lambda>m. []) :: (nat, nat) library) (W_run r arg)) \<longrightarrow>
        onmessage (strict (\<lambda>m. [])) (W_run r arg) w =
          w\<lparr>posted := posted w @ snd (validateCommissionProps (strict (\<lambda>m. []) :: (nat, nat) library) (W_run r arg))\<rparr>"
    by blast
  with s(1) have "onmessage (strict (\<lambda>m. [])) (W_run 2 None) (worker_init :: (nat, nat) worker) =
      worker_init\<lparr>posted := posted (worker_init :: (nat, nat) worker)
        @ snd (validateCommissionProps (strict (\<lambda>m. []) :: (nat, nat) library) (W_run 2 None))\<rparr>"
    by blast
  then have "onmessage (strict (\<lambda>m. [])) (W_run 2 None) (worker_init :: (nat, nat) worker) = worker_init"
    unfolding s by (simp add: worker_init_def)
  with p show ?thesis by simp
qed

subsection \<open>One result object for the whole batch\<close>


text \<open>
  Every step of the worker keeps the entries of \<^verbatim>\<open>RUN.results\<close> equal: the array is only
  ever filled with one address or emptied, and a write goes to the heap.
\<close>

lemma shared_fields [simp]:
  "shared (w\<lparr>posted := ms\<rparr>) = shared w"
  "shared (w\<lparr>tasks := ts\<rparr>) = shared w"
  "shared (w\<lparr>inferences := invoked\<rparr>) = shared w"
  "shared (w\<lparr>uncaught := n\<rparr>) = shared w"
  "shared (w\<lparr>continue := b\<rparr>) = shared w"
  "shared (w\<lparr>sampleIdx := i\<rparr>) = shared w"
  "shared (w\<lparr>samples := smp\<rparr>) = shared w"
  "shared (w\<lparr>session := h\<rparr>) = shared w"
  "shared (w\<lparr>DIMENSIONS := d\<rparr>) = shared w"
  "shared (w\<lparr>wasmPaths := path\<rparr>) = shared w"
  "shared (w\<lparr>results := []\<rparr>)"
  by (simp_all add: shared_def)

lemma shared_init: "shared worker_init"
  by (simp add: shared_def worker_init_def)

lemma shared_deliver: "shared w \<Longrightarrow> shared (deliver c ret w)"
  by (cases c; cases ret) (simp_all add: post_def)

lemma shared_loop_head: "shared w \<Longrightarrow> shared (snd (loop_head lib smp w))"
  by (simp add: loop_head_def finish_def resetRun_def)

lemma shared_settle_run: "shared (snd p) \<Longrightarrow> shared (settle_run c smp p)"
  by (cases p; cases "fst p") (auto simp: settle_run_def shared_deliver)

lemma shared_fresh:
  "shared (w\<lparr>objects := objects w @ [obj], results := replicate n (length (objects w))\<rparr>)"
  by (simp add: shared_def)

lemma shared_run: "shared w \<Longrightarrow> shared (run lib c arg w)"
  unfolding run_def
  by (rule shared_settle_run)
     (auto simp: run_entry_def shared_loop_head shared_fresh finish_def resetRun_def
        split: option.splits)

lemma shared_write_result: "shared w \<Longrightarrow> shared (write_result i out w)"
  by (simp add: shared_def write_result_def Let_def)

lemma shared_onmessage: "shared w \<Longrightarrow> shared (onmessage lib m w)"
  by (cases m)
     (auto simp: validated_def answer_def cancelRun_def pause_def resume_def resetRun_def post_def
        shared_run split: prod.splits)

lemma shared_drop_task [simp]: "shared (drop_task k w) = shared w"
  by (simp add: drop_task_def)

lemma shared_continue_task: "shared w \<Longrightarrow> shared (continue_task lib e t k w)"
proof (induction lib e t k w rule: continue_task.induct)
  case (1 lib k' created r path dims k w)
  then show ?case by (auto simp: after_create_def post_def split: option.splits)
next
  case (2 lib k' out c smp i k w)
  then show ?case
    using shared_write_result [of "drop_task k w" i out]
    by (simp add: after_inference_def Let_def post_def)
next
  case (3 lib k' c smp k w)
  then show ?case
    by (simp add: after_sleep_def shared_settle_run shared_loop_head)
qed simp_all

lemma shared_wstep: "shared w \<Longrightarrow> shared (wstep lib e w)"
  by (cases e) (simp_all add: wstep_def shared_onmessage shared_continue_task)

lemma shared_reached: "shared (wexec lib es worker_init)"
proof (induction es rule: rev_induct)
  case Nil
  then show ?case by (simp add: wexec_def shared_init)
next
  case (snoc e es)
  then show ?case by (simp add: wexec_snoc shared_wstep)
qed

lemma shared_write:
  assumes "shared w" "i < length (results w)" "j < length (results w)"
  shows "results w ! i = results w ! j"
    and "objects (write_result i out w) ! (results w ! j) = overwrite (objects w ! (results w ! i)) out"
proof -
  from assms show e: "results w ! i = results w ! j" by (simp add: shared_def)
  from assms have "results w ! i < length (objects w)" by (simp add: shared_def)
  with e show "objects (write_result i out w) ! (results w ! j)
      = overwrite (objects w ! (results w ! i)) out"
    by (simp add: write_result_def Let_def)
qed

lemma shared_progress:
  assumes "shared w" "i < length (results w)"
  shows "m_successes (progress_message k (write_result i out w))
       = replicate (length (results w)) (Some (out \<noteq> None))"
proof -
  have "success (objects (write_result i out w) ! (results w ! j)) = Some (out \<noteq> None)"
    if "j < length (results w)" for j
    using shared_write(2) [OF assms that, of out] by (cases out) (simp_all add: overwrite_def)
  then show ?thesis
    by (simp add: progress_message_def list_eq_iff_nth_eq write_result_def Let_def)
qed

text \<open>From the initial state no result object is ever written: every entry reads as filled.\<close>

lemma reached_entries_unwritten:
  "\<forall>j<length (results (wexec lib es worker_init)).
     objects (wexec lib es worker_init) ! (results (wexec lib es worker_init) ! j)
       = \<lparr>success = None, value = None\<rparr>"
  using idle_reached [of lib es] shared_reached [of lib es]
  by (auto simp: idle_def shared_def list_all_length)


lemma after_run_fields:
  "\<not> continue after_run" "session after_run = Some 1" "sampleIdx after_run = 0"
  "samples after_run = [10, 11, 12]" "results after_run = [0, 0, 0]" "tasks after_run = []"
  "objects after_run = [\<lparr>success = None, value = None\<rparr>]" "inferences after_run = []"
  "posted after_run =
     [reply Load_model 1 True None, (reply Run 2 True None)\<lparr>m_results := [None, None, None]\<rparr>]"
  by (simp_all add: after_run_def wexec_def wstep_def worker_init_def drop_task_def
      after_create_def validated_def accepting_def run_def run_entry_def loop_head_def
      settle_run_def post_def numeral_3_eq_3)



text \<open>
  The progress message the code builds after a first write, in a state reached from the
  initial one, is \<open>progress_of\<close> with the length of the results array.
\<close>

lemma progress_message_first_write:
  assumes "i < length (results (wexec lib es worker_init))"
  shows "progress_message 0 (write_result i out (wexec lib es worker_init))
       = progress_of (length (results (wexec lib es worker_init))) [out] 0"
  using shared_progress [OF shared_reached assms, of 0 out]
  by (cases out) (simp_all add: progress_message_def progress_of_def latest_def overwrite_def)

lemma progress_message_after_run:
  "progress_message 0 (write_result 0 (Some 7) after_run) = progress_of 3 [Some 7] 0"
proof -
  have "0 < length (results after_run)" by (simp add: after_run_fields)
  then have "progress_message 0 (write_result 0 (Some 7) after_run)
      = progress_of (length (results after_run)) [Some 7] 0"
    unfolding after_run_def by (rule progress_message_first_write)
  then show ?thesis by (simp add: after_run_fields numeral_3_eq_3)
qed

subsection \<open>Pause, resume and cancel\<close>

text \<open>
  In every state \<^verbatim>\<open>resume\<close> leaves the suspended calls and the engine log as they are: the
  loop of \<^verbatim>\<open>run([])\<close> has no iteration, because its bound is the length of the empty
  parameter. When it succeeds, the stored batch is gone.
\<close>

lemma resume_processes_nothing:
  "tasks (snd (resume lib w)) = tasks w \<and> inferences (snd (resume lib w)) = inferences w"
  by (simp add: resume_def run_def run_entry_def loop_head_def finish_def resetRun_def
      settle_run_def)

lemma resume_forgets_batch:
  "fst (resume lib w) \<Longrightarrow>
     samples (snd (resume lib w)) = [] \<and> results (snd (resume lib w)) = []
     \<and> sampleIdx (snd (resume lib w)) = 0 \<and> \<not> continue (snd (resume lib w))"
  by (auto simp: resume_def run_def run_entry_def loop_head_def finish_def resetRun_def
      settle_run_def split: if_splits)

text \<open>
  From the initial state, whatever has happened: cancel and pause are refused, and a
  resume succeeds as soon as a model is loaded.
\<close>

lemma reached_cancel_pause_resume:
  "cancelRun (wexec lib es worker_init) = (False, wexec lib es worker_init)"
  "pause (wexec lib es worker_init) = (False, wexec lib es worker_init)"
  "fst (resume lib (wexec lib es worker_init)) = (session (wexec lib es worker_init) \<noteq> None)"
  using idle_reached [of lib es]
  by (simp_all add: idle_def cancelRun_def pause_def resume_def)

lemma after_pause_fields:
  "session after_pause = Some 1" "sampleIdx after_pause = 0"
  "samples after_pause = [10, 11, 12]" "results after_pause = [0, 0, 0]"
  "tasks after_pause = []" "inferences after_pause = []"
  "posted after_pause =
     [reply Load_model 1 True None, (reply Run 2 True None)\<lparr>m_results := [None, None, None]\<rparr>,
      reply Pause 3 False (Some ''There was no running session to pause.'')]"
  by (simp_all add: after_pause_def wstep_def after_run_fields pause_def answer_def post_def)

text \<open>
  C1. The claim: after a pause at a checkpoint, \<^verbatim>\<open>resume\<close> goes on with the next sample of
  the stored batch, and the final result is that of the uninterrupted run. The code,
  from the initial state: a model is loaded and a run of three samples requested; the
  run stops at its first checkpoint (it is answered with three \<^verbatim>\<open>null\<close>s, the batch and
  index 0 are stored) and a pause message is refused. On the resume message the worker
  answers \<^verbatim>\<open>success: true\<close>, yet no call is left suspended and the engine is invoked on no
  sample; the stored samples and the results array are reset, and nothing but the
  resume response is posted.
\<close>

theorem resume_drops_stored_batch:
  "samples after_pause = [10, 11, 12] \<and> results after_pause = [0, 0, 0] \<and>
   sampleIdx after_pause = 0 \<and> inferences after_pause = [] \<and>
   posted after_pause =
     [reply Load_model 1 True None, (reply Run 2 True None)\<lparr>m_results := [None, None, None]\<rparr>,
      reply Pause 3 False (Some ''There was no running session to pause.'')] \<and>
   (let w = wstep accepting (Recv (W_resume 4)) after_pause in
      tasks w = [] \<and> inferences w = [] \<and> samples w = [] \<and> results w = [] \<and> sampleIdx w = 0 \<and>
      posted w = posted after_pause @ [reply Resume 4 True None])"
  by (simp add: after_pause_fields)
     (simp add: after_pause_def after_run_def wexec_def wstep_def worker_init_def drop_task_def
        after_create_def validated_def accepting_def pause_def resume_def run_def run_entry_def
        loop_head_def finish_def resetRun_def settle_run_def answer_def post_def)

text \<open>
  C6. The claim: \<^verbatim>\<open>cancelRun\<close> during an active run makes the worker discard the stored
  results and run state, so that the next run starts afresh. The code, from the
  initial state: a model is loaded, a run of two samples is requested and a cancel
  follows. The run is answered at once with two \<^verbatim>\<open>null\<close>s and no inference; the cancel is
  answered \<^verbatim>\<open>success: false\<close>, and the results array and the samples of the run are
  still stored.
\<close>

theorem cancel_keeps_stored_run:
  "(let w = wexec accepting
       [Recv (W_load_model 1 ''model.onnx'' (Some [1, 3])), Created 0 (Some 1),
        Recv (W_run 2 (Some [10, 11])), Recv (W_cancel 3)] (worker_init :: (nat, nat) worker)
    in results w = [0, 0] \<and> samples w = [10, 11] \<and> inferences w = [] \<and>
       posted w = [reply Load_model 1 True None,
                   (reply Run 2 True None)\<lparr>m_results := [None, None]\<rparr>,
                   reply Cancel 3 False (Some ''There was no running session to pause.'')])"
  by (simp add: wexec_def wstep_def worker_init_def drop_task_def after_create_def validated_def
      accepting_def run_def run_entry_def loop_head_def finish_def resetRun_def settle_run_def
      answer_def post_def cancelRun_def)

subsection \<open>What the worker posts\<close>

text \<open>
  Every message of the worker is a response with the \<^verbatim>\<open>rn\<close> of its request or a progress
  message without \<^verbatim>\<open>rn\<close>, provided the library posts no progress message with an \<^verbatim>\<open>rn\<close>.
\<close>

lemma worker_message_reply [simp]: "a \<noteq> Progress \<Longrightarrow> worker_message (reply a r ok why)"
  by (simp add: worker_message_def reply_def)

lemma worker_message_deliver:
  "list_all worker_message (posted w) \<Longrightarrow> list_all worker_message (posted (deliver c ret w))"
  by (cases c; cases ret) (simp_all add: post_def worker_message_def reply_def blank_def)

lemma worker_message_settle_run:
  "list_all worker_message (posted (snd p))
     \<Longrightarrow> list_all worker_message (posted (settle_run c smp p))"
  by (cases p; cases "fst p") (auto simp: settle_run_def worker_message_deliver)

lemma worker_message_run:
  "list_all worker_message (posted w) \<Longrightarrow> list_all worker_message (posted (run lib c arg w))"
  unfolding run_def by (rule worker_message_settle_run) simp

lemma worker_message_onmessage:
  assumes "\<And>m. list_all worker_message (snd (validateCommissionProps lib m))"
    and "list_all worker_message (posted w)"
  shows "list_all worker_message (posted (onmessage lib m w))"
proof (cases m)
  case (W_resume r)
  from assms(2) have "list_all worker_message (posted (run lib By_resume (Some []) (w\<lparr>continue := True\<rparr>)))"
    by (intro worker_message_run) simp
  with assms(2) W_resume show ?thesis by (simp add: answer_def resume_def post_def)
next
  case (W_run r arg)
  from assms(1) [of m] assms(2) have "list_all worker_message (posted (snd (validated lib m w)))"
    by (auto simp: validated_def split: prod.splits)
  with W_run show ?thesis
    by (cases "validated lib m w") (auto simp: worker_message_run)
next
  case (W_load_model r path dims)
  from assms(1) [of m] assms(2) have "list_all worker_message (posted (snd (validated lib m w)))"
    by (auto simp: validated_def split: prod.splits)
  with W_load_model show ?thesis by (cases "validated lib m w") auto
next
  case (W_setup_worker r path)
  from assms(1) [of m] assms(2) have "list_all worker_message (posted (snd (validated lib m w)))"
    by (auto simp: validated_def split: prod.splits)
  with W_setup_worker show ?thesis by (cases "validated lib m w") (auto simp: post_def)
qed (use assms(2) in \<open>auto simp: answer_def cancelRun_def pause_def resetRun_def post_def\<close>)

lemma worker_message_continue_task:
  "list_all worker_message (posted w)
     \<Longrightarrow> list_all worker_message (posted (continue_task lib e t k w))"
proof (induction lib e t k w rule: continue_task.induct)
  case (1 lib k' created r path dims k w)
  then show ?case
    by (auto simp: after_create_def drop_task_def post_def split: option.splits)
next
  case (2 lib k' out c smp i k w)
  then show ?case
    by (auto simp: after_inference_def drop_task_def post_def write_result_def Let_def
        progress_message_def worker_message_def blank_def)
next
  case (3 lib k' c smp k w)
  let ?w = "(drop_task k w)\<lparr>sampleIdx := sampleIdx (drop_task k w) + 1\<rparr>"
  have "list_all worker_message (posted (settle_run c smp (loop_head lib smp ?w)))"
    using 3 by (intro worker_message_settle_run) (simp add: drop_task_def)
  then show ?case by (simp add: after_sleep_def)
qed simp_all

lemma worker_posts_worker_messages:
  assumes "\<And>m. list_all worker_message (snd (validateCommissionProps lib m))"
  shows "list_all worker_message (posted (wexec lib es worker_init))"
proof (induction es rule: rev_induct)
  case Nil
  then show ?case by (simp add: wexec_def worker_init_def)
next
  case (snoc e es)
  then show ?case
    using worker_message_onmessage [OF assms]
    by (cases e)
       (simp_all add: wexec_snoc wstep_def worker_message_continue_task)
qed

section \<open>Properties of the service\<close>

subsection \<open>The microtask queue and the logs\<close>

lemma drain_empty: "microtasks f = [] \<Longrightarrow> drain f = f"
  by (simp add: drain.simps)

lemma drain_next:
  "microtasks f = t # ts \<Longrightarrow> drain f = drain (run_microtask t (f\<lparr>microtasks := ts\<rparr>))"
  by (subst drain.simps) simp

lemma microtasks_drain [simp]: "microtasks (drain f) = []"
proof (induction f rule: drain.induct)
  case (1 f)
  show ?case
  proof (cases "microtasks f")
    case Nil
    then show ?thesis by (simp add: drain_empty)
  next
    case (Cons t ts)
    with 1 show ?thesis by (simp add: drain_next)
  qed
qed

lemma exec_snoc: "exec base (es @ [e]) f = step base e (exec base es f)"
  by (simp add: exec_def)

lemma microtasks_exec: "microtasks f = [] \<Longrightarrow> microtasks (exec base es f) = []"
  by (induction es rule: rev_induct) (simp_all add: exec_snoc step_def, simp add: exec_def)

lemma microtasks_new [simp]: "microtasks (new_service d) = []"
  by (simp add: new_service_def setupWorker_def commissionWorker_def initWaiters_def
      blank_service_def)

lemmas eval_defs = exec_def step_def new_service_def blank_service_def setupWorker_def loadModel_def
  run_service_def run_rest_def resetProgress_def cancelRun_service_def pauseRun_def resumeRun_def
  commissionWorker_def initWaiters_def notifyWaiters_def settle_def returns_def completes_def
  handleWorkerResponse_def getCommissionForMessage_def reply_def blank_def no_base_def drain.simps
  Let_def

lemma loading_fields:
  "modelState loading_service = Loading" "\<not> isRunInProgress loading_service"
  "waiters loading_service Ph_load = Some []" "microtasks loading_service = []"
  "outbox loading_service = [W_setup_worker 0 ''/onnx'', W_load_model 1 ''model.onnx'' None]"
  "nextRn loading_service = 2"
  "commissions loading_service 1 =
     Some \<lparr>c_action = Load_model, c_awaited_by = M_loadModel, c_reject = True\<rparr>"
  by (simp_all add: loading_service_def eval_defs)

lemma running_fields:
  "modelState running_service = Loaded" "isRunInProgress running_service"
  "progress_complete running_service = 0" "progress_target running_service = 3"
  "outbox running_service =
     [W_setup_worker 0 ''/onnx'', W_load_model 1 ''model.onnx'' None, W_run 2 (Some [10, 11, 12])]"
  "settled running_service = [(1, Some 1)]"
  "microtasks running_service = []"
  by (simp_all add: running_service_def eval_defs)

subsection \<open>The commission registry\<close>

lemma registry_ok_unchanged [simp]:
  "registry_ok (f\<lparr>isRunInProgress := b\<rparr>) = registry_ok f"
  "registry_ok (f\<lparr>modelState := ms\<rparr>) = registry_ok f"
  "registry_ok (f\<lparr>progress_complete := i\<rparr>) = registry_ok f"
  "registry_ok (f\<lparr>progress_target := i\<rparr>) = registry_ok f"
  "registry_ok (f\<lparr>waiters := ws\<rparr>) = registry_ok f"
  "registry_ok (f\<lparr>microtasks := q\<rparr>) = registry_ok f"
  "registry_ok (f\<lparr>timers := n\<rparr>) = registry_ok f"
  "registry_ok (f\<lparr>outbox := ob\<rparr>) = registry_ok f"
  "registry_ok (f\<lparr>returned := rs\<rparr>) = registry_ok f"
  by (simp_all add: registry_ok_def)

lemma registry_ok_commissionWorker:
  "registry_ok f \<Longrightarrow> registry_ok (commissionWorker a m payload f)"
  by (fastforce simp: registry_ok_def commissionWorker_def)

lemma registry_ok_notifyWaiters [simp]: "registry_ok (notifyWaiters ph b f) = registry_ok f"
  by (simp add: notifyWaiters_def split: option.splits)

lemma registry_ok_initWaiters [simp]: "registry_ok (initWaiters ph f) = registry_ok f"
  by (simp add: initWaiters_def)

lemma registry_ok_returns [simp]: "registry_ok (returns m v f) = registry_ok f"
  by (simp add: returns_def)

lemma registry_ok_cancelRun: "registry_ok f \<Longrightarrow> registry_ok (snd (cancelRun_service f))"
  by (simp add: cancelRun_service_def registry_ok_commissionWorker)

lemma registry_ok_resetProgress: "registry_ok f \<Longrightarrow> registry_ok (resetProgress f)"
  by (simp add: resetProgress_def registry_ok_cancelRun)

lemma registry_ok_run_rest: "registry_ok f \<Longrightarrow> registry_ok (snd (run_rest smp f))"
  by (simp add: run_rest_def Let_def registry_ok_commissionWorker registry_ok_resetProgress)

lemma registry_ok_completes: "registry_ok (snd p) \<Longrightarrow> registry_ok (completes m p)"
  by (cases p) (simp add: completes_def split: option.splits)

lemma registry_ok_run_microtask: "registry_ok f \<Longrightarrow> registry_ok (run_microtask t f)"
proof (cases t)
  case (Continue m s)
  assume "registry_ok f"
  with Continue show ?thesis
    by (cases m; cases s) (simp_all add: registry_ok_resetProgress)
next
  case (Wake smp)
  assume "registry_ok f"
  with Wake show ?thesis by (simp add: registry_ok_completes registry_ok_run_rest)
qed

lemma registry_ok_drain: "registry_ok f \<Longrightarrow> registry_ok (drain f)"
proof (induction f rule: drain.induct)
  case (1 f)
  show ?case
  proof (cases "microtasks f")
    case Nil
    with 1 show ?thesis by (simp add: drain_empty)
  next
    case (Cons t ts)
    with 1 show ?thesis by (simp add: drain_next registry_ok_run_microtask)
  qed
qed

lemma registry_ok_settle:
  assumes "registry_ok f" "commissions f r = Some c" "m_rn m = Some r"
  shows "registry_ok (settle r c m s (f\<lparr>commissions := (commissions f)(r := None)\<rparr>))"
  using assms by (fastforce simp: registry_ok_def settle_def)

lemma registry_ok_remove:
  assumes "registry_ok f"
  shows "registry_ok (f\<lparr>commissions := (commissions f)(r := None)\<rparr>)"
  using assms by (fastforce simp: registry_ok_def)

lemma registry_ok_handleWorkerResponse:
  assumes "registry_ok f"
  shows "registry_ok (snd (handleWorkerResponse base m f))"
proof (cases "m_rn m")
  case None
  with assms show ?thesis
    by (simp add: handleWorkerResponse_def getCommissionForMessage_def split: option.splits)
next
  case (Some r)
  show ?thesis
  proof (cases "commissions f r")
    case None
    with Some assms show ?thesis
      by (simp add: handleWorkerResponse_def getCommissionForMessage_def split: option.splits)
  next
    case c: (Some c)
    note s = registry_ok_settle [OF assms c Some] and d = registry_ok_remove [OF assms, of r]
    from Some c assms show ?thesis
      by (cases "base m")
         (auto simp: handleWorkerResponse_def getCommissionForMessage_def s d split: option.splits)
  qed
qed

lemma registry_ok_handle: "registry_ok f \<Longrightarrow> registry_ok (handle base e f)"
  by (cases e)
     (simp_all add: registry_ok_completes registry_ok_commissionWorker registry_ok_cancelRun
        registry_ok_resetProgress registry_ok_run_rest registry_ok_handleWorkerResponse
        setupWorker_def loadModel_def run_service_def pauseRun_def resumeRun_def Let_def
        split: option.splits)

lemma registry_ok_new: "registry_ok (new_service d)"
  by (simp add: new_service_def setupWorker_def blank_service_def registry_ok_def
      commissionWorker_def initWaiters_def)

lemma registry_ok_exec: "registry_ok f \<Longrightarrow> registry_ok (exec base es f)"
proof (induction es rule: rev_induct)
  case Nil
  then show ?case by (simp add: exec_def)
next
  case (snoc e es)
  then show ?case by (simp add: exec_snoc step_def registry_ok_drain registry_ok_handle)
qed

lemma settled_is_gone:
  assumes "registry_ok f" "m_rn m = Some r" "r \<in> fst ` set (settled f)"
  shows "handleWorkerResponse base m f = (False, f)"
proof -
  from assms have "commissions f r = None" by (auto simp: registry_ok_def)
  with assms(2) show ?thesis
    by (simp add: handleWorkerResponse_def getCommissionForMessage_def split: option.splits)
qed

text \<open>
  C2. After any sequence of method calls, timers and incoming messages, starting from the
  constructor: no commission id occurs twice among the calls of \<^verbatim>\<open>resolve\<close> and \<^verbatim>\<open>reject\<close>,
  so each promise is settled at most once; each of these calls was made while handling a
  message whose \<^verbatim>\<open>rn\<close> is the commission's id; and a further message with the id of a
  settled commission is ignored: the handler returns \<^verbatim>\<open>false\<close> and the service is
  unchanged.
\<close>

theorem commission_settled_at_most_once:
  "(let f = exec base es (new_service d) in
      distinct (map fst (settled f))
      \<and> (\<forall>p \<in> set (settled f). snd p = Some (fst p))
      \<and> (\<forall>m r. m_rn m = Some r \<and> r \<in> fst ` set (settled f) \<longrightarrow>
            handleWorkerResponse base m f = (False, f) \<and> step base (Deliver m) f = f))"
proof -
  let ?f = "exec base es (new_service d)"
  have ok: "registry_ok ?f" by (rule registry_ok_exec) (rule registry_ok_new)
  have q: "microtasks ?f = []" by (rule microtasks_exec) simp
  have "handleWorkerResponse base m ?f = (False, ?f) \<and> step base (Deliver m) ?f = ?f"
    if "m_rn m = Some r" "r \<in> fst ` set (settled ?f)" for m r
    using settled_is_gone [OF ok that, of base] q by (simp add: step_def drain_empty)
  with ok show ?thesis
    unfolding Let_def registry_ok_def by blast
qed

theorem commission_settled_at_most_once_witness:
  "settled (exec no_base
       [Call_loadModel ''model.onnx'', Deliver (reply Load_model 1 True None)]
       (new_service ''/onnx'' :: (nat, nat) service)) = [(1, Some 1)]
   \<and> step no_base (Deliver (reply Load_model 1 True None))
       (exec no_base [Call_loadModel ''model.onnx'', Deliver (reply Load_model 1 True None)]
          (new_service ''/onnx'' :: (nat, nat) service))
     = exec no_base [Call_loadModel ''model.onnx'', Deliver (reply Load_model 1 True None)]
          (new_service ''/onnx'')"
proof -
  let ?f = "exec no_base [Call_loadModel ''model.onnx'', Deliver (reply Load_model 1 True None)]
       (new_service ''/onnx'' :: (nat, nat) service)"
  have s: "settled ?f = [(1, Some 1)]" by (simp add: eval_defs)
  have m: "m_rn (reply Load_model 1 True None :: nat message) = Some 1"
    by (simp add: reply_def blank_def)
  from commission_settled_at_most_once [of no_base
      "[Call_loadModel ''model.onnx'', Deliver (reply Load_model 1 True None)]" "''/onnx''"]
  have "\<forall>m r. m_rn m = Some r \<and> r \<in> fst ` set (settled ?f) \<longrightarrow>
      handleWorkerResponse no_base m ?f = (False, ?f) \<and> step no_base (Deliver m) ?f = ?f"
    unfolding Let_def by blast
  with m s have "step no_base (Deliver (reply Load_model 1 True None)) ?f = ?f"
    by simp
  with s show ?thesis by simp
qed

subsection \<open>Progress\<close>

lemma unsolicited_ignored: "m_rn m = None \<Longrightarrow> handleWorkerResponse base m f = (False, f)"
  by (simp add: handleWorkerResponse_def getCommissionForMessage_def split: option.splits)

text \<open>No message settles a commission while it is handled as a progress message.\<close>

lemma progress_never_settles:
  "m_action m = Some Progress \<Longrightarrow> settled (snd (handleWorkerResponse base m f)) = settled f"
  by (simp add: handleWorkerResponse_def getCommissionForMessage_def split: option.splits)

lemma progress_ok_unchanged [simp]:
  "progress_ok (f\<lparr>isRunInProgress := b\<rparr>) = progress_ok f"
  "progress_ok (f\<lparr>modelState := ms\<rparr>) = progress_ok f"
  "progress_ok (f\<lparr>commissions := cs\<rparr>) = progress_ok f"
  "progress_ok (f\<lparr>nextRn := k\<rparr>) = progress_ok f"
  "progress_ok (f\<lparr>waiters := ws\<rparr>) = progress_ok f"
  "progress_ok (f\<lparr>microtasks := q\<rparr>) = progress_ok f"
  "progress_ok (f\<lparr>timers := n\<rparr>) = progress_ok f"
  "progress_ok (f\<lparr>outbox := ob\<rparr>) = progress_ok f"
  "progress_ok (f\<lparr>settled := st\<rparr>) = progress_ok f"
  "progress_ok (f\<lparr>returned := rs\<rparr>) = progress_ok f"
  by (simp_all add: progress_ok_def)

lemma progress_ok_base [simp]:
  "progress_ok (commissionWorker a m payload f) = progress_ok f"
  "progress_ok (notifyWaiters ph b f) = progress_ok f"
  "progress_ok (initWaiters ph f) = progress_ok f"
  "progress_ok (returns m v f) = progress_ok f"
  "progress_ok (settle r c msg s f) = progress_ok f"
  by (simp_all add: commissionWorker_def notifyWaiters_def initWaiters_def returns_def settle_def
      split: option.splits)

lemma resetProgress_zero [simp]:
  "progress_complete (resetProgress f) = 0" "progress_target (resetProgress f) = 0"
  by (simp_all add: resetProgress_def)

lemma progress_ok_resetProgress [simp]: "progress_ok (resetProgress f)"
  by (simp add: progress_ok_def)

lemma progress_ok_run_rest: "progress_ok f \<Longrightarrow> progress_ok (snd (run_rest smp f))"
  by (simp add: run_rest_def Let_def progress_ok_def commissionWorker_def initWaiters_def)

lemma progress_ok_completes: "progress_ok (snd p) \<Longrightarrow> progress_ok (completes m p)"
  by (cases p) (simp add: completes_def split: option.splits)

lemma progress_ok_run_microtask: "progress_ok f \<Longrightarrow> progress_ok (run_microtask t f)"
proof (cases t)
  case (Continue m s)
  assume "progress_ok f"
  with Continue show ?thesis by (cases m; cases s) simp_all
next
  case (Wake smp)
  assume "progress_ok f"
  with Wake show ?thesis by (simp add: progress_ok_completes progress_ok_run_rest)
qed

lemma progress_ok_drain: "progress_ok f \<Longrightarrow> progress_ok (drain f)"
proof (induction f rule: drain.induct)
  case (1 f)
  show ?case
  proof (cases "microtasks f")
    case Nil
    with 1 show ?thesis by (simp add: drain_empty)
  next
    case (Cons t ts)
    with 1 show ?thesis by (simp add: drain_next progress_ok_run_microtask)
  qed
qed

lemma progress_ok_handleWorkerResponse:
  assumes "progress_ok f" "worker_message m"
  shows "progress_ok (snd (handleWorkerResponse base m f))"
proof (cases "m_rn m")
  case None
  with assms show ?thesis by (simp add: unsolicited_ignored)
next
  case (Some r)
  with assms have "m_action m \<noteq> Some Progress" by (auto simp: worker_message_def)
  with assms(1) show ?thesis
    by (cases "base m")
       (auto simp: handleWorkerResponse_def getCommissionForMessage_def split: option.splits)
qed

lemma progress_ok_handle:
  "progress_ok f \<Longrightarrow> from_worker e \<Longrightarrow> progress_ok (handle base e f)"
  by (cases e)
     (simp_all add: progress_ok_completes progress_ok_run_rest progress_ok_handleWorkerResponse
        from_worker_def cancelRun_service_def setupWorker_def loadModel_def run_service_def
        pauseRun_def resumeRun_def Let_def split: option.splits)

lemma progress_ok_new: "progress_ok (new_service d)"
  by (simp add: new_service_def setupWorker_def) (simp add: blank_service_def progress_ok_def)

lemma progress_ok_exec:
  "progress_ok f \<Longrightarrow> list_all from_worker es \<Longrightarrow> progress_ok (exec base es f)"
proof (induction es rule: rev_induct)
  case Nil
  then show ?case by (simp add: exec_def)
next
  case (snoc e es)
  then show ?case by (simp add: exec_snoc step_def progress_ok_drain progress_ok_handle)
qed

lemma runProgress_ok: "progress_ok f \<Longrightarrow> runProgress f = 0"
  by (simp add: runProgress_def progress_ok_def)

text \<open>
  C7. In every state the service reaches from its constructor by method calls, timers
  and messages of the worker (\<open>from_worker\<close>: a progress message has no \<^verbatim>\<open>rn\<close>), the
  fraction \<^verbatim>\<open>runProgress\<close> lies between 0 and 1; and in whatever state \<^verbatim>\<open>resetProgress\<close> is
  called, the fraction is 0 when it returns.
\<close>

theorem progress_fraction_bounds:
  assumes "list_all from_worker es"
  shows "0 \<le> runProgress (exec base es (new_service d))
       \<and> runProgress (exec base es (new_service d)) \<le> 1
       \<and> runProgress (resetProgress f) = 0"
  using progress_ok_exec [OF progress_ok_new assms, of base d]
  by (simp add: runProgress_ok)

theorem progress_fraction_bounds_witness:
  "list_all from_worker
     ([Call_loadModel ''model.onnx'', Deliver (reply Load_model 1 True None), Call_run [10, 11, 12],
       Deliver (progress_of 3 [Some 7] 0)] :: (nat, nat) event list)
   \<and> 0 \<le> runProgress (exec no_base [Deliver (progress_of 3 [Some 7] 0)] running_service)
   \<and> runProgress (exec no_base [Deliver (progress_of 3 [Some 7] 0)] running_service) \<le> 1
   \<and> runProgress (resetProgress running_service) = 0"
proof -
  have w: "list_all (from_worker :: (nat, nat) event \<Rightarrow> bool)
     [Call_loadModel ''model.onnx'', Deliver (reply Load_model 1 True None), Call_run [10, 11, 12],
      Deliver (progress_of 3 [Some (7::nat)] 0)]"
    by (simp add: from_worker_def worker_message_def reply_def blank_def progress_of_def)
  have e: "exec no_base [Deliver (progress_of 3 [Some 7] 0)] running_service =
      exec no_base
        [Call_loadModel ''model.onnx'', Deliver (reply Load_model 1 True None), Call_run [10, 11, 12],
         Deliver (progress_of 3 [Some (7::nat)] 0)] (new_service ''/onnx'')"
    by (simp add: running_service_def exec_def)
  from progress_fraction_bounds [OF w, of no_base "''/onnx''" running_service] w
  show ?thesis unfolding e by simp
qed

text \<open>
  C3. The claim: an unsolicited progress message updates the counter \<^verbatim>\<open>complete\<close> and
  nothing else. The code at \<open>running_service\<close> (a run of three samples in progress,
  \<^verbatim>\<open>complete\<close> 0, \<^verbatim>\<open>target\<close> 3), on the progress message the worker posts after the first
  sample (\<^verbatim>\<open>complete: 1\<close>, no \<^verbatim>\<open>rn\<close>): no commission matches, the handler returns \<^verbatim>\<open>false\<close>
  before its branch for \<^verbatim>\<open>'progress'\<close>, and the service, its counter included, is
  unchanged.
\<close>

theorem progress_message_is_dropped:
  "progress_target running_service = 3 \<and> progress_complete running_service = 0 \<and>
   handleWorkerResponse no_base (progress_of 3 [Some 7] 0) running_service
     = (False, running_service) \<and>
   progress_complete (step no_base (Deliver (progress_of 3 [Some 7] 0)) running_service) = 0"
  by (simp add: running_fields unsolicited_ignored progress_of_def blank_def step_def drain_empty)

subsection \<open>Guards of the methods\<close>





text \<open>
  \<^verbatim>\<open>cancelRun\<close> of the service while a run is in progress: the flag is cleared, the \<^verbatim>\<open>'run'\<close>
  group is notified and deleted, a cancel commission is posted; once its promise is
  resolved the progress is reset.
\<close>

lemma cancelRun_service_running:
  assumes "isRunInProgress f"
  shows "fst (cancelRun_service f) = None \<and> \<not> isRunInProgress (snd (cancelRun_service f))
       \<and> waiters (snd (cancelRun_service f)) Ph_run = None
       \<and> outbox (snd (cancelRun_service f)) = outbox f @ [W_cancel (nextRn f)]"
  using assms
  by (simp add: cancelRun_service_def commissionWorker_def notifyWaiters_def split: option.splits)

lemma cancelRun_service_resolved:
  "progress_complete (continue_method M_cancelRun (Resolved v) f) = 0
   \<and> progress_target (continue_method M_cancelRun (Resolved v) f) = 0"
  by (simp add: returns_def)

text \<open>
  C5, as the claim states it, fails: while a load is the active phase (\<open>loading_service\<close>),
  a second \<^verbatim>\<open>loadModel\<close> posts a second load-model commission, with a new id.
\<close>

theorem loadModel_while_loading:
  "modelState loading_service = Loading \<and> waiters loading_service Ph_load = Some [] \<and>
   fst (loadModel ''other.onnx'' loading_service) = None \<and>
   outbox (snd (loadModel ''other.onnx'' loading_service)) =
     [W_setup_worker 0 ''/onnx'', W_load_model 1 ''model.onnx'' None,
      W_load_model 2 ''other.onnx'' None] \<and>
   commissions (snd (loadModel ''other.onnx'' loading_service)) 2 =
     Some \<lparr>c_action = Load_model, c_awaited_by = M_loadModel, c_reject = True\<rparr>"
  by (simp add: loading_fields loadModel_def commissionWorker_def initWaiters_def)

text \<open>
  C5, amended. \<^verbatim>\<open>loadModel\<close> has no guard: in every state, a load under way or not, the
  call sets the model state to loading, begins a load phase with an empty waiter group,
  and posts a load-model commission under a fresh id; its promise is pending.
\<close>

theorem loadModel_has_no_guard:
  "fst (loadModel path f) = None \<and>
   modelState (snd (loadModel path f)) = Loading \<and>
   waiters (snd (loadModel path f)) Ph_load = Some [] \<and>
   outbox (snd (loadModel path f)) = outbox f @ [W_load_model (nextRn f) path None] \<and>
   commissions (snd (loadModel path f)) (nextRn f) =
     Some \<lparr>c_action = Load_model, c_awaited_by = M_loadModel, c_reject = True\<rparr> \<and>
   nextRn (snd (loadModel path f)) = nextRn f + 1"
  by (simp add: loadModel_def commissionWorker_def initWaiters_def)

subsection \<open>A run that waits for the model\<close>

lemma grows_refl [simp]: "grows f f"
  by (simp add: grows_def)

lemma grows_fields [simp]:
  "grows f (g\<lparr>isRunInProgress := b\<rparr>) = grows f g"
  "grows f (g\<lparr>progress_complete := i\<rparr>) = grows f g"
  "grows f (g\<lparr>progress_target := i\<rparr>) = grows f g"
  "grows f (g\<lparr>returned := rs\<rparr>) = grows f g"
  "grows f (returns m v g) = grows f g"
  "grows f (initWaiters ph g) = grows f g"
  by (simp_all add: grows_def returns_def initWaiters_def)

lemma grows_commissionWorker: "grows f g \<Longrightarrow> grows f (commissionWorker a m payload g)"
  by (auto simp: grows_def commissionWorker_def)

lemma grows_notifyWaiters: "grows f g \<Longrightarrow> grows f (notifyWaiters ph b g)"
  by (auto simp: grows_def notifyWaiters_def is_wake_def list_all_iff split: option.splits)

lemma grows_resetProgress: "grows f g \<Longrightarrow> grows f (resetProgress g)"
  by (simp add: resetProgress_def cancelRun_service_def grows_commissionWorker
      grows_notifyWaiters)

lemma grows_run_rest: "grows f g \<Longrightarrow> grows f (snd (run_rest smp g))"
  by (simp add: run_rest_def Let_def grows_commissionWorker grows_resetProgress)

lemma grows_wake: "grows f (run_microtask (Wake smp) f)"
  using grows_run_rest [of f f smp]
  by (cases "run_rest smp f") (auto simp: completes_def split: option.splits)

text \<open>A woken call of \<^verbatim>\<open>run\<close> with samples posts its run commission, whatever the state.\<close>

lemma wake_posts:
  assumes "smp \<noteq> []"
  shows "\<exists>rn ob. nextRn f \<le> rn \<and> outbox (run_microtask (Wake smp) f) = outbox f @ ob
           \<and> W_run rn (Some smp) \<in> set ob"
proof -
  let ?g = "initWaiters Ph_run
      ((resetProgress f)\<lparr>progress_target := int (length smp), isRunInProgress := True\<rparr>)"
  have "grows f ?g" by (simp add: grows_resetProgress)
  then obtain ob where "nextRn f \<le> nextRn ?g" "outbox ?g = outbox f @ ob"
    by (auto simp: grows_def)
  moreover have "outbox (run_microtask (Wake smp) f) = outbox ?g @ [W_run (nextRn ?g) (Some smp)]"
    using assms by (simp add: run_rest_def Let_def completes_def commissionWorker_def)
  ultimately show ?thesis by auto
qed

lemma drain_wakes:
  "list_all is_wake (microtasks f) \<Longrightarrow>
     modelState (drain f) = modelState f \<and> (\<exists>ob. outbox (drain f) = outbox f @ ob)
     \<and> (\<forall>smp. Wake smp \<in> set (microtasks f) \<and> smp \<noteq> [] \<longrightarrow>
           (\<exists>rn ob. nextRn f \<le> rn \<and> outbox (drain f) = outbox f @ ob \<and> W_run rn (Some smp) \<in> set ob))"
proof (induction f rule: drain.induct)
  case (1 f)
  show ?case
  proof (cases "microtasks f")
    case Nil
    then show ?thesis by (simp add: drain_empty)
  next
    case (Cons t ts)
    with "1.prems" have "is_wake t" and ts: "list_all is_wake ts" by simp_all
    then obtain w where t: "t = Wake w" by (cases t) (auto simp: is_wake_def)
    let ?f0 = "f\<lparr>microtasks := ts\<rparr>"
    let ?g = "run_microtask t ?f0"
    have g: "grows ?f0 ?g" unfolding t by (rule grows_wake)
    then obtain wk ob where q: "microtasks ?g = ts @ wk" "list_all is_wake wk"
      and o: "outbox ?g = outbox f @ ob" and n: "nextRn f \<le> nextRn ?g"
      and ms: "modelState ?g = modelState f"
      by (auto simp: grows_def)
    from q ts have "list_all is_wake (microtasks ?g)" by simp
    from "1.IH" [OF Cons this]
    have ih: "modelState (drain ?g) = modelState ?g"
      and "\<exists>ob. outbox (drain ?g) = outbox ?g @ ob"
      and ih3: "\<And>smp. Wake smp \<in> set (microtasks ?g) \<Longrightarrow> smp \<noteq> [] \<Longrightarrow>
          \<exists>rn ob. nextRn ?g \<le> rn \<and> outbox (drain ?g) = outbox ?g @ ob \<and> W_run rn (Some smp) \<in> set ob"
      by auto
    then obtain ob2 where o2: "outbox (drain ?g) = outbox ?g @ ob2" by auto
    have d: "drain f = drain ?g" using Cons by (rule drain_next)
    have "\<exists>rn ob. nextRn f \<le> rn \<and> outbox (drain f) = outbox f @ ob \<and> W_run rn (Some smp) \<in> set ob"
      if "Wake smp \<in> set (microtasks f)" "smp \<noteq> []" for smp
    proof (cases "smp = w")
      case True
      from wake_posts [OF that(2), of ?f0] obtain rn ob1
        where "nextRn f \<le> rn" "outbox ?g = outbox f @ ob1" "W_run rn (Some smp) \<in> set ob1"
        using True t by auto
      with o2 d have "outbox (drain f) = outbox f @ (ob1 @ ob2)" "W_run rn (Some smp) \<in> set (ob1 @ ob2)"
        by simp_all
      with \<open>nextRn f \<le> rn\<close> show ?thesis by blast
    next
      case False
      with that Cons t have "Wake smp \<in> set (microtasks ?g)" using q by auto
      from ih3 [OF this that(2)] obtain rn ob3
        where "nextRn ?g \<le> rn" "outbox (drain ?g) = outbox ?g @ ob3" "W_run rn (Some smp) \<in> set ob3"
        by auto
      with o d n have "nextRn f \<le> rn" "outbox (drain f) = outbox f @ (ob @ ob3)"
        "W_run rn (Some smp) \<in> set (ob @ ob3)"
        by simp_all
      then show ?thesis by blast
    qed
    moreover have "modelState (drain f) = modelState f" using ih ms d by simp
    moreover have "\<exists>ob. outbox (drain f) = outbox f @ ob" using o o2 d by simp
    ultimately show ?thesis by blast
  qed
qed

text \<open>
  C10. Let the model be loading with the load phase active (other calls of \<^verbatim>\<open>run\<close> may
  wait for it already), no run in progress and nothing queued, and let \<^verbatim>\<open>run\<close> be called
  with samples that are not empty: the call posts nothing, returns nothing and waits.
  When the worker then reports that the load failed, the model state becomes \<^verbatim>\<open>error\<close>
  and stays so, and the waiting call goes on without looking at it: a run commission
  with its samples, under a fresh id, is among the messages posted since.
\<close>

theorem run_after_failed_load:
  assumes "modelState f = Loading" "\<not> isRunInProgress f" "smp \<noteq> []"
    "waiters f Ph_load = Some ws" "microtasks f = []"
    "commissions f r = Some c" "c_awaited_by c = M_loadModel" "c_reject c"
    "m_action m = Some Load_model" "m_rn m = Some r" "\<not> m_success m"
  shows "(let f1 = step base (Call_run smp) f; f2 = step base (Deliver m) f1 in
     outbox f1 = outbox f \<and> returned f1 = returned f \<and> modelState f1 = Loading \<and>
     modelState f2 = Error \<and>
     (\<exists>rn ob. nextRn f \<le> rn \<and> outbox f2 = outbox f @ ob \<and> W_run rn (Some smp) \<in> set ob))"
proof -
  let ?f1 = "f\<lparr>waiters := (waiters f)(Ph_load \<mapsto> ws @ [smp])\<rparr>"
  have f1: "step base (Call_run smp) f = ?f1"
    using assms by (simp add: step_def run_service_def completes_def drain_empty)
  let ?g = "returns M_loadModel (V_bool False)
      (?f1\<lparr>commissions := (commissions f)(r := None), settled := settled f @ [(r, Some r)],
           modelState := Error, waiters := (waiters f)(Ph_load := None),
           microtasks := map Wake (ws @ [smp])\<rparr>)"
  have f2: "step base (Deliver m) ?f1 = drain ?g"
    using assms
    by (simp add: step_def handleWorkerResponse_def getCommissionForMessage_def settle_def
        drain_next notifyWaiters_def returns_def)
  have "list_all is_wake (microtasks ?g)"
    by (simp add: returns_def is_wake_def list_all_iff)
  from drain_wakes [OF this]
  have "modelState (drain ?g) = Error"
    and "\<exists>rn ob. nextRn f \<le> rn \<and> outbox (drain ?g) = outbox f @ ob \<and> W_run rn (Some smp) \<in> set ob"
    using assms(3) by (auto simp: returns_def)
  then show ?thesis
    unfolding Let_def f1 f2 using assms(1) by simp
qed

theorem run_after_failed_load_witness:
  "modelState loading_service = Loading \<and> \<not> isRunInProgress loading_service \<and>
   waiters loading_service Ph_load = Some [] \<and>
   modelState (step no_base (Deliver (reply Load_model 1 False None))
                 (step no_base (Call_run [10, 11]) loading_service)) = Error \<and>
   outbox (step no_base (Deliver (reply Load_model 1 False None))
                 (step no_base (Call_run [10, 11]) loading_service)) =
     [W_setup_worker 0 ''/onnx'', W_load_model 1 ''model.onnx'' None, W_run 2 (Some [10, 11])]"
proof -
  have m: "m_action (reply Load_model 1 False None :: nat message) = Some Load_model"
    "m_rn (reply Load_model 1 False None :: nat message) = Some 1"
    "\<not> m_success (reply Load_model 1 False None :: nat message)"
    by (simp_all add: reply_def blank_def)
  have c: "c_awaited_by \<lparr>c_action = Load_model, c_awaited_by = M_loadModel, c_reject = True\<rparr>
      = M_loadModel"
    "c_reject \<lparr>c_action = Load_model, c_awaited_by = M_loadModel, c_reject = True\<rparr>"
    by simp_all
  have s: "[10, 11 :: nat] \<noteq> []" by simp
  from run_after_failed_load [OF loading_fields(1) loading_fields(2) s loading_fields(3)
      loading_fields(4) loading_fields(7) c m, of no_base]
  have e: "modelState (step no_base (Deliver (reply Load_model 1 False None))
                 (step no_base (Call_run [10, 11]) loading_service)) = Error"
    by (simp add: Let_def)
  have o: "outbox (step no_base (Deliver (reply Load_model 1 False None))
                 (step no_base (Call_run [10, 11]) loading_service)) =
     [W_setup_worker 0 ''/onnx'', W_load_model 1 ''model.onnx'' None, W_run 2 (Some [10, 11])]"
    by (simp add: loading_service_def eval_defs)
  from e o show ?thesis by (simp add: loading_fields)
qed

end

